theory Spec2Isabelle
  imports Main "HOL-Library.Word"
begin

section \<open>libteam: the data model of \<^verbatim>\<open>src/lib/libteam.c\<close>\<close>

text \<open>
  The C library keeps, per \<^verbatim>\<open>struct team_handle\<close>, three intrusive doubly linked lists
  (ports, options, change handler registrations). A linked list is modelled by the HOL
  list of its entries from \<^verbatim>\<open>head->next\<close> onwards: \<^verbatim>\<open>list_add\<close> inserts at the
  front, \<^verbatim>\<open>list_add_tail\<close> at the end, \<^verbatim>\<open>list_for_each_entry\<close> walks it from the
  front.
\<close>

type_synonym u8 = "8 word"
type_synonym u32 = "32 word"

subsection \<open>Constants of headers that are outside the source file\<close>

text \<open>The \<^verbatim>\<open>errno.h\<close> numbers of Linux.\<close>

definition ENOENT :: int where "ENOENT = 2"
definition ENOMEM :: int where "ENOMEM = 12"
definition EEXIST :: int where "EEXIST = 17"
definition EINVAL :: int where "EINVAL = 22"
definition ENOTSUP :: int where "ENOTSUP = 95"
definition ENOBUFS :: int where "ENOBUFS = 105"

text \<open>The attribute type codes of \<^verbatim>\<open>netlink/attr.h\<close> (libnl).\<close>

definition NLA_U32 :: u32 where "NLA_U32 = 3"
definition NLA_STRING :: u32 where "NLA_STRING = 5"

text \<open>
  Modelled from the spec: \<^verbatim>\<open>enum team_change_type\<close> of \<^verbatim>\<open>team.h\<close>, which is not
  among the sources. The spec gives the change class tag as one of PORT, OPTION, ALL;
  the source names the three enumerators.
\<close>

datatype team_change_type = TEAM_ALL_CHANGE | TEAM_PORT_CHANGE | TEAM_OPTION_CHANGE

text \<open>
  Modelled from the spec: \<^verbatim>\<open>enum team_option_type\<close> of \<^verbatim>\<open>team.h\<close>: the type tag
  is U32 or STRING. \<open>TEAM_OPTION_TYPE_OTHER\<close> stands for any other integer passed
  where the C code takes the tag as an \<^verbatim>\<open>int\<close>.
\<close>

datatype team_option_type =
  TEAM_OPTION_TYPE_U32 | TEAM_OPTION_TYPE_STRING | TEAM_OPTION_TYPE_OTHER int

text \<open>The generic netlink commands of \<^verbatim>\<open>linux/if_team.h\<close>.\<close>

datatype team_cmd =
  TEAM_CMD_NOOP | TEAM_CMD_OPTIONS_SET | TEAM_CMD_OPTIONS_GET | TEAM_CMD_PORT_LIST_GET
  | TEAM_CMD_OTHER u8

subsection \<open>Structures\<close>

record team_port =
  port_ifindex :: u32
  speed :: u32
  duplex :: u8
  port_changed :: bool
  linkup :: bool

text \<open>
  \<^verbatim>\<open>option->data\<close> is a private copy of \<^verbatim>\<open>data_size\<close> bytes: the four bytes of a
  u32, or the characters of a string with its terminator.
\<close>

datatype option_data = DataU32 u32 | DataString string

record team_option =
  opt_type :: team_option_type
  opt_changed :: bool
  name :: string
  data :: option_data

text \<open>
  \<^verbatim>\<open>struct team_change_handler\<close> belongs to the caller; the library only holds its
  address. \<open>handler_addr\<close> is that address (the handler's identity), \<open>handler_type\<close>
  the class read through it. The callback itself is application code: calling it is
  recorded as an entry of a call log.
\<close>

record team_change_handler =
  handler_addr :: nat
  handler_type :: team_change_type

record change_handler_item =
  call_this :: bool
  handler :: team_change_handler

text \<open>
  The callbacks installed on a libnl socket by \<^verbatim>\<open>nl_socket_modify_cb\<close> and
  \<^verbatim>\<open>nl_socket_modify_err_cb\<close>. \<open>cb_completion\<close> says whether \<^verbatim>\<open>ack_handler\<close>,
  \<^verbatim>\<open>finish_handler\<close> and \<^verbatim>\<open>error_handler\<close> are installed (\<^verbatim>\<open>team_init\<close> installs
  the three together).
\<close>

datatype valid_cb =
  CB_DEFAULT | CB_get_port_list_handler | CB_get_options_handler | CB_event_handler

record nl_sock =
  cb_valid :: valid_cb
  cb_completion :: bool

record team_handle =
  nl_sock :: nl_sock
  nl_sock_err :: int
  nl_sock_event :: nl_sock
  family :: int
  ifindex :: u32
  port_list :: "team_port list"
  option_list :: "team_option list"
  change_handler_list :: "change_handler_item list"

text \<open>The three list helpers of the kernel's \<^verbatim>\<open>list.h\<close> that the library uses.\<close>

definition list_add :: "'a \<Rightarrow> 'a list \<Rightarrow> 'a list" where
  "list_add new head = new # head"

definition list_add_tail :: "'a \<Rightarrow> 'a list \<Rightarrow> 'a list" where
  "list_add_tail new head = head @ [new]"

definition list_splice :: "'a list \<Rightarrow> 'a list \<Rightarrow> 'a list" where
  "list_splice lst head = (if lst = [] then head else lst @ head)"

section \<open>Change dispatcher\<close>

text \<open>\<^verbatim>\<open>set_call_change_handlers\<close>: the mark step.\<close>

definition mark_item :: "team_change_type \<Rightarrow> change_handler_item \<Rightarrow> change_handler_item" where
  "mark_item ty handler_item =
     (if ty = TEAM_ALL_CHANGE \<or> handler_type (handler handler_item) = ty
      then handler_item\<lparr>call_this := True\<rparr> else handler_item)"

definition set_call_change_handlers :: "team_handle \<Rightarrow> team_change_type \<Rightarrow> team_handle" where
  "set_call_change_handlers th ty =
     th\<lparr>change_handler_list := map (mark_item ty) (change_handler_list th)\<rparr>"

text \<open>
  \<^verbatim>\<open>check_call_change_handlers\<close>: the fire sweep. The walk returns the registrations
  with the flags it cleared and the callbacks it invoked, in the order of invocation.
\<close>

definition fires :: "team_change_type \<Rightarrow> change_handler_item \<Rightarrow> bool" where
  "fires ty handler_item \<longleftrightarrow>
     (ty = TEAM_ALL_CHANGE \<or> handler_type (handler handler_item) = ty) \<and> call_this handler_item"

fun check_call_items ::
  "team_change_type \<Rightarrow> change_handler_item list \<Rightarrow>
     change_handler_item list \<times> team_change_handler list" where
  "check_call_items ty [] = ([], [])"
| "check_call_items ty (handler_item # rest) =
     (let (rest', calls) = check_call_items ty rest in
      if fires ty handler_item
      then (handler_item\<lparr>call_this := False\<rparr> # rest', handler handler_item # calls)
      else (handler_item # rest', calls))"

definition check_call_change_handlers ::
  "team_handle \<Rightarrow> team_change_type \<Rightarrow> team_handle \<times> team_change_handler list" where
  "check_call_change_handlers th ty =
     (let (items, calls) = check_call_items ty (change_handler_list th)
      in (th\<lparr>change_handler_list := items\<rparr>, calls))"

definition find_change_handler ::
  "team_handle \<Rightarrow> team_change_handler \<Rightarrow> change_handler_item option" where
  "find_change_handler th h =
     find (\<lambda>handler_item. handler_addr (handler handler_item) = handler_addr h)
       (change_handler_list th)"

text \<open>
  \<^verbatim>\<open>team_change_handler_register\<close>; \<open>alloc_ok\<close> says whether the allocation of the
  registration succeeds.
\<close>

definition team_change_handler_register ::
  "team_handle \<Rightarrow> bool \<Rightarrow> team_change_handler \<Rightarrow> int \<times> team_handle" where
  "team_change_handler_register th alloc_ok h =
     (if find_change_handler th h \<noteq> None then (- EEXIST, th)
      else if \<not> alloc_ok then (- ENOMEM, th)
      else (0, th\<lparr>change_handler_list :=
                    list_add \<lparr>call_this = False, handler = h\<rparr> (change_handler_list th)\<rparr>))"

text \<open>\<^verbatim>\<open>team_change_handler_unregister\<close>: \<^verbatim>\<open>list_del\<close> unlinks the entry found.\<close>

definition team_change_handler_unregister ::
  "team_handle \<Rightarrow> team_change_handler \<Rightarrow> team_handle" where
  "team_change_handler_unregister th h =
     (case find_change_handler th h of
        None \<Rightarrow> th
      | Some handler_item \<Rightarrow>
          th\<lparr>change_handler_list := remove1 handler_item (change_handler_list th)\<rparr>)"

section \<open>Message codec\<close>

text \<open>
  A netlink attribute is read only through libnl's accessors, so an attribute is modelled
  by what each accessor returns on its payload. An attribute table
  (\<^verbatim>\<open>attrs[]\<close>, \<^verbatim>\<open>port_attrs[]\<close>, \<^verbatim>\<open>option_attrs[]\<close>) is a record with one optional
  attribute per identifier; \<open>None\<close> is the null pointer of an absent attribute.
\<close>

record nlattr =
  nla_get_u32 :: u32
  nla_get_u8 :: u8
  nla_get_string :: string

record port_attrs =
  TEAM_ATTR_PORT_IFINDEX :: "nlattr option"
  TEAM_ATTR_PORT_CHANGED :: "nlattr option"
  TEAM_ATTR_PORT_LINKUP :: "nlattr option"
  TEAM_ATTR_PORT_SPEED :: "nlattr option"
  TEAM_ATTR_PORT_DUPLEX :: "nlattr option"

record option_attrs =
  TEAM_ATTR_OPTION_NAME :: "nlattr option"
  TEAM_ATTR_OPTION_CHANGED :: "nlattr option"
  TEAM_ATTR_OPTION_TYPE :: "nlattr option"
  TEAM_ATTR_OPTION_DATA :: "nlattr option"

text \<open>
  One element of a nested list: \<^verbatim>\<open>nla_parse_nested\<close> either fails on it or fills the
  attribute table.
\<close>

datatype 'a nested = ParseFailed | Parsed 'a

record nl_msg =
  cmd :: team_cmd
  TEAM_ATTR_TEAM_IFINDEX :: "nlattr option"
  TEAM_ATTR_LIST_PORT :: "port_attrs nested list option"
  TEAM_ATTR_LIST_OPTION :: "option_attrs nested list option"

text \<open>
  What a decoder run depends on besides the handle and the message: the indeterminate
  initial content of its local variable \<^verbatim>\<open>team_ifindex\<close> (read when the message has
  no team ifindex attribute), and whether the allocation made for the \<open>i\<close>-th element
  of the nested list succeeds.
\<close>

record cb_env =
  uninit_team_ifindex :: u32
  malloc_ok :: "nat \<Rightarrow> bool"

text \<open>
  A call that does not return: the process dereferences a null pointer, or it waits
  forever for a reply.
\<close>

datatype no_return = NULL_DEREFERENCE | BLOCKS_FOREVER

text \<open>
  The loop of \<^verbatim>\<open>get_port_list_handler\<close> over the nested port elements, building
  \<^verbatim>\<open>tmp_list\<close>. \<open>None\<close> is one of the three \<^verbatim>\<open>return NL_SKIP\<close> inside the loop.
\<close>

definition new_port :: "port_attrs \<Rightarrow> u32 \<Rightarrow> team_port" where
  "new_port pa ifx =
     \<lparr>port_ifindex = ifx,
      speed = (case TEAM_ATTR_PORT_SPEED pa of None \<Rightarrow> 0 | Some a \<Rightarrow> nla_get_u32 a),
      duplex = (case TEAM_ATTR_PORT_DUPLEX pa of None \<Rightarrow> 0 | Some a \<Rightarrow> nla_get_u8 a),
      port_changed = (TEAM_ATTR_PORT_CHANGED pa \<noteq> None),
      linkup = (TEAM_ATTR_PORT_LINKUP pa \<noteq> None)\<rparr>"

fun port_loop ::
  "(nat \<Rightarrow> bool) \<Rightarrow> nat \<Rightarrow> port_attrs nested list \<Rightarrow> team_port list \<Rightarrow>
     team_port list option" where
  "port_loop ok i [] tmp_list = Some tmp_list"
| "port_loop ok i (ParseFailed # rest) tmp_list = None"
| "port_loop ok i (Parsed pa # rest) tmp_list =
     (case TEAM_ATTR_PORT_IFINDEX pa of
        None \<Rightarrow> None
      | Some a \<Rightarrow>
          if \<not> ok i then None
          else port_loop ok (Suc i) rest (list_add_tail (new_port pa (nla_get_u32 a)) tmp_list))"

text \<open>\<^verbatim>\<open>flush_port_list\<close> unlinks and frees every port of the handle.\<close>

definition flush_port_list :: "team_handle \<Rightarrow> team_handle" where
  [simp]: "flush_port_list th = th\<lparr>port_list := []\<rparr>"

text \<open>
  \<^verbatim>\<open>get_port_list_handler\<close>. Every path returns \<^verbatim>\<open>NL_SKIP\<close>, so the model returns
  the handle only.
\<close>

definition get_port_list_handler :: "team_handle \<Rightarrow> cb_env \<Rightarrow> nl_msg \<Rightarrow> team_handle" where
  "get_port_list_handler th env msg =
     (let team_ifindex =
            (case TEAM_ATTR_TEAM_IFINDEX msg of
               Some a \<Rightarrow> nla_get_u32 a | None \<Rightarrow> uninit_team_ifindex env)
      in if team_ifindex \<noteq> ifindex th then th
         else case TEAM_ATTR_LIST_PORT msg of
                None \<Rightarrow> th
              | Some nl_ports \<Rightarrow>
                  (case port_loop (malloc_ok env) 0 nl_ports [] of
                     None \<Rightarrow> th
                   | Some tmp_list \<Rightarrow>
                       (let th1 = flush_port_list th;
                            th2 = th1\<lparr>port_list := list_splice tmp_list (port_list th1)\<rparr>
                        in set_call_change_handlers th2 TEAM_PORT_CHANGE)))"

text \<open>\<^verbatim>\<open>__find_option\<close>: the first option of the list with that name.\<close>

definition find_option :: "team_option list \<Rightarrow> string \<Rightarrow> team_option option" where
  "find_option opt_list nm = find (\<lambda>option. name option = nm) opt_list"

text \<open>
  \<^verbatim>\<open>create_option\<close> returns the null pointer when one of its three allocations fails;
  \<open>ok\<close> says that all three succeed.
\<close>

definition create_option ::
  "bool \<Rightarrow> string \<Rightarrow> team_option_type \<Rightarrow> option_data \<Rightarrow> bool \<Rightarrow> team_option option" where
  "create_option ok nm ty d changed =
     (if ok then Some \<lparr>opt_type = ty, opt_changed = changed, name = nm, data = d\<rparr> else None)"

text \<open>
  The loop of \<^verbatim>\<open>get_options_handler\<close>. \<open>Inr None\<close> is a \<^verbatim>\<open>return NL_SKIP\<close> inside
  the loop; the recursive call on the same \<^verbatim>\<open>tmp_list\<close> is a \<^verbatim>\<open>continue\<close>. The
  result of \<^verbatim>\<open>create_option\<close> is linked without a null check:
  \<^verbatim>\<open>list_add_tail(&option->list, ...)\<close> writes through the null pointer.
\<close>

definition add_created ::
  "team_option option \<Rightarrow> team_option list \<Rightarrow> no_return + team_option list" where
  "add_created created tmp_list =
     (case created of
        None \<Rightarrow> Inl NULL_DEREFERENCE
      | Some option \<Rightarrow> Inr (list_add_tail option tmp_list))"

fun option_loop ::
  "(nat \<Rightarrow> bool) \<Rightarrow> nat \<Rightarrow> option_attrs nested list \<Rightarrow> team_option list \<Rightarrow>
     no_return + team_option list option" where
  "option_loop ok i [] tmp_list = Inr (Some tmp_list)"
| "option_loop ok i (ParseFailed # rest) tmp_list = Inr None"
| "option_loop ok i (Parsed oa # rest) tmp_list =
     (case (TEAM_ATTR_OPTION_NAME oa, TEAM_ATTR_OPTION_TYPE oa, TEAM_ATTR_OPTION_DATA oa) of
        (Some a_name, Some a_type, Some a_data) \<Rightarrow>
          (let nm = nla_get_string a_name in
           if find_option tmp_list nm \<noteq> None then option_loop ok (Suc i) rest tmp_list
           else
             let changed = (TEAM_ATTR_OPTION_CHANGED oa \<noteq> None);
                 nla_type = nla_get_u32 a_type
             in if nla_type = NLA_U32 then
                  (case add_created
                          (create_option (ok i) nm TEAM_OPTION_TYPE_U32
                             (DataU32 (nla_get_u32 a_data)) changed) tmp_list of
                     Inl nr \<Rightarrow> Inl nr
                   | Inr tmp_list' \<Rightarrow> option_loop ok (Suc i) rest tmp_list')
                else if nla_type = NLA_STRING then
                  (case add_created
                          (create_option (ok i) nm TEAM_OPTION_TYPE_STRING
                             (DataString (nla_get_string a_data)) changed) tmp_list of
                     Inl nr \<Rightarrow> Inl nr
                   | Inr tmp_list' \<Rightarrow> option_loop ok (Suc i) rest tmp_list')
                else option_loop ok (Suc i) rest tmp_list)
      | _ \<Rightarrow> Inr None)"

text \<open>\<^verbatim>\<open>flush_option_list\<close> unlinks and frees every option of the handle.\<close>

definition flush_option_list :: "team_handle \<Rightarrow> team_handle" where
  [simp]: "flush_option_list th = th\<lparr>option_list := []\<rparr>"

text \<open>\<^verbatim>\<open>get_options_handler\<close>; it returns \<^verbatim>\<open>NL_SKIP\<close> on every path that returns.\<close>

definition get_options_handler ::
  "team_handle \<Rightarrow> cb_env \<Rightarrow> nl_msg \<Rightarrow> no_return + team_handle" where
  "get_options_handler th env msg =
     (let team_ifindex =
            (case TEAM_ATTR_TEAM_IFINDEX msg of
               Some a \<Rightarrow> nla_get_u32 a | None \<Rightarrow> uninit_team_ifindex env)
      in if team_ifindex \<noteq> ifindex th then Inr th
         else case TEAM_ATTR_LIST_OPTION msg of
                None \<Rightarrow> Inr th
              | Some nl_options \<Rightarrow>
                  (case option_loop (malloc_ok env) 0 nl_options [] of
                     Inl nr \<Rightarrow> Inl nr
                   | Inr None \<Rightarrow> Inr th
                   | Inr (Some tmp_list) \<Rightarrow>
                       (let th1 = flush_option_list th;
                            th2 = th1\<lparr>option_list :=
                                      list_splice tmp_list (option_list th1)\<rparr>
                        in Inr (set_call_change_handlers th2 TEAM_OPTION_CHANGE))))"

text \<open>\<^verbatim>\<open>event_handler\<close>: the valid-message callback of the event socket.\<close>

definition event_handler :: "team_handle \<Rightarrow> cb_env \<Rightarrow> nl_msg \<Rightarrow> no_return + team_handle" where
  "event_handler th env msg =
     (case cmd msg of
        TEAM_CMD_PORT_LIST_GET \<Rightarrow> Inr (get_port_list_handler th env msg)
      | TEAM_CMD_OPTIONS_GET \<Rightarrow> get_options_handler th env msg
      | _ \<Rightarrow> Inr th)"

section \<open>Transport: libnl's receive pump as the library drives it\<close>

text \<open>
  \<^verbatim>\<open>nl_recvmsgs_default(sk)\<close> reads one datagram and hands each message of it to the
  callback installed on the socket for its kind. The library's valid-message callbacks
  all return \<^verbatim>\<open>NL_SKIP\<close> (go on with the next message); libnl's default callback does
  nothing.
\<close>

definition call_valid_cb ::
  "valid_cb \<Rightarrow> team_handle \<Rightarrow> cb_env \<Rightarrow> nl_msg \<Rightarrow> no_return + team_handle" where
  "call_valid_cb cb th env msg =
     (case cb of
        CB_DEFAULT \<Rightarrow> Inr th
      | CB_get_port_list_handler \<Rightarrow> Inr (get_port_list_handler th env msg)
      | CB_get_options_handler \<Rightarrow> get_options_handler th env msg
      | CB_event_handler \<Rightarrow> event_handler th env msg)"

text \<open>
  One \<^verbatim>\<open>nl_recvmsgs_default(th->nl_sock_event)\<close>: \<open>inbound\<close> are the valid messages of
  the datagram, each with the environment of its decoder run.
\<close>

fun recvmsgs_event :: "team_handle \<Rightarrow> (cb_env \<times> nl_msg) list \<Rightarrow> no_return + team_handle" where
  "recvmsgs_event th [] = Inr th"
| "recvmsgs_event th ((env, msg) # rest) =
     (case call_valid_cb (cb_valid (nl_sock_event th)) th env msg of
        Inl nr \<Rightarrow> Inl nr
      | Inr th' \<Rightarrow> recvmsgs_event th' rest)"

text \<open>\<^verbatim>\<open>team_process_event\<close>: one drain, then the fire sweep with class ALL.\<close>

definition team_process_event ::
  "team_handle \<Rightarrow> (cb_env \<times> nl_msg) list \<Rightarrow>
     no_return + team_handle \<times> team_change_handler list" where
  "team_process_event th inbound =
     (case recvmsgs_event th inbound of
        Inl nr \<Rightarrow> Inl nr
      | Inr th' \<Rightarrow> Inr (check_call_change_handlers th' TEAM_ALL_CHANGE))"

text \<open>
  On the command socket the datagram can also hold an acknowledgement, the end of a
  multipart reply or an error message. \<^verbatim>\<open>ack_handler\<close> returns \<^verbatim>\<open>NL_STOP\<close>, which ends
  the pump's call; \<^verbatim>\<open>finish_handler\<close> and \<^verbatim>\<open>error_handler\<close> return \<^verbatim>\<open>NL_SKIP\<close>.
  Where \<^verbatim>\<open>team_init\<close> has not installed them, libnl's defaults leave
  \<^verbatim>\<open>th->nl_sock_err\<close> alone (and end the call on an error message).
\<close>

datatype nl_delivery = Valid cb_env nl_msg | Ack | Finish | Error int

definition ack_handler :: "team_handle \<Rightarrow> team_handle" where
  "ack_handler th = th\<lparr>nl_sock_err := 0\<rparr>"

definition finish_handler :: "team_handle \<Rightarrow> team_handle" where
  "finish_handler th = th\<lparr>nl_sock_err := 0\<rparr>"

definition error_handler :: "team_handle \<Rightarrow> int \<Rightarrow> team_handle" where
  "error_handler th nl_err_error = th\<lparr>nl_sock_err := nl_err_error\<rparr>"

fun recvmsgs_cmd :: "team_handle \<Rightarrow> nl_delivery list \<Rightarrow> no_return + team_handle" where
  "recvmsgs_cmd th [] = Inr th"
| "recvmsgs_cmd th (Valid env msg # rest) =
     (case call_valid_cb (cb_valid (nl_sock th)) th env msg of
        Inl nr \<Rightarrow> Inl nr
      | Inr th' \<Rightarrow> recvmsgs_cmd th' rest)"
| "recvmsgs_cmd th (Ack # rest) =
     (if cb_completion (nl_sock th) then Inr (ack_handler th) else recvmsgs_cmd th rest)"
| "recvmsgs_cmd th (Finish # rest) =
     recvmsgs_cmd (if cb_completion (nl_sock th) then finish_handler th else th) rest"
| "recvmsgs_cmd th (Error e # rest) =
     (if cb_completion (nl_sock th) then recvmsgs_cmd (error_handler th e) rest else Inr th)"

text \<open>
  The loop \<^verbatim>\<open>while (th->nl_sock_err > 0) nl_recvmsgs_default(th->nl_sock)\<close> of
  \<^verbatim>\<open>send_and_recv\<close>, over the datagrams the kernel sends in reply. When they run out
  while the loop still waits, the receive blocks and never returns.
\<close>

fun recv_loop :: "team_handle \<Rightarrow> nl_delivery list list \<Rightarrow> no_return + team_handle" where
  "recv_loop th [] = (if nl_sock_err th > 0 then Inl BLOCKS_FOREVER else Inr th)"
| "recv_loop th (datagram # later) =
     (if nl_sock_err th > 0 then
        (case recvmsgs_cmd th datagram of
           Inl nr \<Rightarrow> Inl nr
         | Inr th' \<Rightarrow> recv_loop th' later)
      else Inr th)"

text \<open>The request messages the library builds.\<close>

record option_item_req =
  req_option_name :: string
  req_option_type :: u32
  req_option_data :: option_data

record nl_request =
  req_family :: int
  req_cmd :: team_cmd
  req_team_ifindex :: u32
  req_list_option :: "option_item_req list option"

text \<open>
  The outside world of one request/reply exchange: whether \<^verbatim>\<open>nlmsg_alloc\<close> returns a
  message, whether every \<^verbatim>\<open>NLA_PUT\<close> and \<^verbatim>\<open>nla_nest_start\<close> finds room, what
  \<^verbatim>\<open>nl_send_auto_complete\<close> returns for the request, and the reply datagrams.
\<close>

record xchg_env =
  nlmsg_alloc_ok :: bool
  nla_put_ok :: bool
  nl_send_auto_complete :: "nl_request \<Rightarrow> int"
  replies :: "nl_delivery list list"

definition send_and_recv ::
  "team_handle \<Rightarrow> xchg_env \<Rightarrow> nl_request \<Rightarrow> valid_cb option \<Rightarrow> no_return + int \<times> team_handle" where
  "send_and_recv th x msg valid_handler =
     (let err = nl_send_auto_complete x msg in
      if err < 0 then Inr (err, th)
      else
        let th1 = th\<lparr>nl_sock_err := 1\<rparr>;
            th2 = (case valid_handler of
                     None \<Rightarrow> th1
                   | Some cb \<Rightarrow> th1\<lparr>nl_sock := (nl_sock th1)\<lparr>cb_valid := cb\<rparr>\<rparr>)
        in case recv_loop th2 (replies x) of
             Inl nr \<Rightarrow> Inl nr
           | Inr th3 \<Rightarrow> Inr (nl_sock_err th3, th3))"

text \<open>
  \<^verbatim>\<open>set_option_value\<close>. \<open>d\<close> is the object \<^verbatim>\<open>data\<close> points to; the two callers pass
  a u32 with the U32 tag and a string with the STRING tag, and the DATA attribute carries
  that object. The second \<^verbatim>\<open>switch\<close> of the C code has no reachable default.
\<close>

definition set_option_value ::
  "team_handle \<Rightarrow> xchg_env \<Rightarrow> string \<Rightarrow> option_data \<Rightarrow> team_option_type \<Rightarrow>
     no_return + int \<times> team_handle" where
  "set_option_value th x opt_name d opt_ty =
     (case (case opt_ty of
              TEAM_OPTION_TYPE_U32 \<Rightarrow> Some NLA_U32
            | TEAM_OPTION_TYPE_STRING \<Rightarrow> Some NLA_STRING
            | TEAM_OPTION_TYPE_OTHER v \<Rightarrow> None) of
        None \<Rightarrow> Inr (- ENOENT, th)
      | Some nla_type \<Rightarrow>
          if \<not> nlmsg_alloc_ok x then Inr (- ENOMEM, th)
          else if \<not> nla_put_ok x then Inr (- ENOBUFS, th)
          else send_and_recv th x
                 \<lparr>req_family = family th, req_cmd = TEAM_CMD_OPTIONS_SET,
                  req_team_ifindex = ifindex th,
                  req_list_option =
                    Some [\<lparr>req_option_name = opt_name, req_option_type = nla_type,
                           req_option_data = d\<rparr>]\<rparr>
                 None)"

definition team_set_option_value_by_name_u32 ::
  "team_handle \<Rightarrow> xchg_env \<Rightarrow> string \<Rightarrow> u32 \<Rightarrow> no_return + int \<times> team_handle" where
  "team_set_option_value_by_name_u32 th x opt_name val =
     set_option_value th x opt_name (DataU32 val) TEAM_OPTION_TYPE_U32"

definition team_set_option_value_by_name_string ::
  "team_handle \<Rightarrow> xchg_env \<Rightarrow> string \<Rightarrow> string \<Rightarrow> no_return + int \<times> team_handle" where
  "team_set_option_value_by_name_string th x opt_name str =
     set_option_value th x opt_name (DataString str) TEAM_OPTION_TYPE_STRING"

definition team_get_option_by_name :: "team_handle \<Rightarrow> string \<Rightarrow> team_option option" where
  "team_get_option_by_name th nm = find_option (option_list th) nm"

text \<open>\<^verbatim>\<open>get_port_list\<close> and \<^verbatim>\<open>get_options\<close>: a synchronous refresh and its fire sweep.\<close>

definition get_port_list ::
  "team_handle \<Rightarrow> xchg_env \<Rightarrow> no_return + int \<times> team_handle \<times> team_change_handler list" where
  "get_port_list th x =
     (if \<not> nlmsg_alloc_ok x then Inr (- ENOMEM, th, [])
      else if \<not> nla_put_ok x then Inr (- ENOBUFS, th, [])
      else case send_and_recv th x
                  \<lparr>req_family = family th, req_cmd = TEAM_CMD_PORT_LIST_GET,
                   req_team_ifindex = ifindex th, req_list_option = None\<rparr>
                  (Some CB_get_port_list_handler) of
             Inl nr \<Rightarrow> Inl nr
           | Inr (err, th') \<Rightarrow>
               if err \<noteq> 0 then Inr (err, th', [])
               else let (th'', calls) = check_call_change_handlers th' TEAM_PORT_CHANGE
                    in Inr (0, th'', calls))"

definition get_options ::
  "team_handle \<Rightarrow> xchg_env \<Rightarrow> no_return + int \<times> team_handle \<times> team_change_handler list" where
  "get_options th x =
     (if \<not> nlmsg_alloc_ok x then Inr (- ENOMEM, th, [])
      else if \<not> nla_put_ok x then Inr (- ENOBUFS, th, [])
      else case send_and_recv th x
                  \<lparr>req_family = family th, req_cmd = TEAM_CMD_OPTIONS_GET,
                   req_team_ifindex = ifindex th, req_list_option = None\<rparr>
                  (Some CB_get_options_handler) of
             Inl nr \<Rightarrow> Inl nr
           | Inr (err, th') \<Rightarrow>
               if err \<noteq> 0 then Inr (err, th', [])
               else let (th'', calls) = check_call_change_handlers th' TEAM_OPTION_CHANGE
                    in Inr (0, th'', calls))"

section \<open>Handle facade\<close>

text \<open>
  \<^verbatim>\<open>team_init\<close>. The environment gives the return values of the libnl calls of
  \<^verbatim>\<open>team_init\<close> and the two exchanges of the initial refreshes. The result is the
  return value, the handle as the call leaves it, and the callbacks invoked.
\<close>

record init_env =
  genl_connect_nl_sock :: int
  genl_connect_nl_sock_event :: int
  genl_ctrl_resolve :: int
  genl_ctrl_resolve_grp :: int
  nl_socket_add_membership :: int
  port_list_xchg :: xchg_env
  options_xchg :: xchg_env

definition install_callbacks :: "team_handle \<Rightarrow> team_handle" where
  "install_callbacks th =
     th\<lparr>nl_sock := (nl_sock th)\<lparr>cb_completion := True\<rparr>,
        nl_sock_event := (nl_sock_event th)\<lparr>cb_valid := CB_event_handler\<rparr>\<rparr>"

definition team_init ::
  "team_handle \<Rightarrow> init_env \<Rightarrow> u32 \<Rightarrow>
     no_return + int \<times> team_handle \<times> team_change_handler list" where
  "team_init th0 env ifx =
     (if ifx = 0 then Inr (- ENOENT, th0, [])
      else
        let th1 = th0\<lparr>ifindex := ifx\<rparr> in
        if genl_connect_nl_sock env \<noteq> 0 then Inr (- ENOTSUP, th1, [])
        else if genl_connect_nl_sock_event env \<noteq> 0 then Inr (- ENOTSUP, th1, [])
        else
          let th2 = th1\<lparr>family := genl_ctrl_resolve env\<rparr> in
          if family th2 < 0 then Inr (- ENOENT, th2, [])
          else if genl_ctrl_resolve_grp env < 0 then Inr (- ENOENT, th2, [])
          else if nl_socket_add_membership env < 0 then Inr (- EINVAL, th2, [])
          else
            case get_port_list (install_callbacks th2) (port_list_xchg env) of
              Inl nr \<Rightarrow> Inl nr
            | Inr (err, th3, calls) \<Rightarrow>
                if err \<noteq> 0 then Inr (- EINVAL, th3, calls)
                else
                  (case get_options th3 (options_xchg env) of
                     Inl nr \<Rightarrow> Inl nr
                   | Inr (err', th4, calls') \<Rightarrow>
                       if err' \<noteq> 0 then Inr (- EINVAL, th4, calls @ calls')
                       else Inr (0, th4, calls @ calls')))"

text \<open>
  \<^verbatim>\<open>team_alloc\<close>: the zeroed handle with three empty lists and fresh sockets, or the
  null pointer when one of its steps fails.
\<close>

record alloc_env =
  malloc_handle_ok :: bool
  nl_socket_alloc_ok :: bool
  nl_socket_alloc_event_ok :: bool
  nl_cli_alloc_socket_ok :: bool
  nl_cli_connect :: int
  nl_cli_link_alloc_cache_ok :: bool

definition team_alloc :: "alloc_env \<Rightarrow> team_handle option" where
  "team_alloc env =
     (if \<not> malloc_handle_ok env then None
      else if \<not> nl_socket_alloc_ok env then None
      else if \<not> nl_socket_alloc_event_ok env then None
      else if \<not> nl_cli_alloc_socket_ok env then None
      else if nl_cli_connect env \<noteq> 0 then None
      else if \<not> nl_cli_link_alloc_cache_ok env then None
      else Some \<lparr>nl_sock = \<lparr>cb_valid = CB_DEFAULT, cb_completion = False\<rparr>,
                 nl_sock_err = 0,
                 nl_sock_event = \<lparr>cb_valid = CB_DEFAULT, cb_completion = False\<rparr>,
                 family = 0, ifindex = 0,
                 port_list = [], option_list = [], change_handler_list = []\<rparr>)"

text \<open>
  The handles a program can hold: what \<^verbatim>\<open>team_alloc\<close> returns, and what the exported
  operations that change a handle make of such a handle when they return.
\<close>

inductive reachable :: "team_handle \<Rightarrow> bool" where
  r_alloc: "team_alloc env = Some th \<Longrightarrow> reachable th"
| r_init: "reachable th \<Longrightarrow> team_init th ienv ifx = Inr (r, th', calls) \<Longrightarrow> reachable th'"
| r_process_event:
    "reachable th \<Longrightarrow> team_process_event th inbound = Inr (th', calls) \<Longrightarrow> reachable th'"
| r_register:
    "reachable th \<Longrightarrow> team_change_handler_register th alloc_ok h = (r, th') \<Longrightarrow> reachable th'"
| r_unregister: "reachable th \<Longrightarrow> reachable (team_change_handler_unregister th h)"
| r_set_u32:
    "reachable th \<Longrightarrow> team_set_option_value_by_name_u32 th x nm val = Inr (r, th') \<Longrightarrow>
       reachable th'"
| r_set_string:
    "reachable th \<Longrightarrow> team_set_option_value_by_name_string th x nm str = Inr (r, th') \<Longrightarrow>
       reachable th'"

section \<open>Notions used to state the properties\<close>

text \<open>
  What the loop of \<^verbatim>\<open>get_options_handler\<close> reads off one parsed element: whether the
  three required attributes are there, the name it carries, and the option
  \<^verbatim>\<open>create_option\<close> is asked to build for it (none for a netlink type other than
  \<^verbatim>\<open>NLA_U32\<close> and \<^verbatim>\<open>NLA_STRING\<close>).
\<close>

definition has_required :: "option_attrs \<Rightarrow> bool" where
  "has_required oa \<longleftrightarrow>
     TEAM_ATTR_OPTION_NAME oa \<noteq> None \<and> TEAM_ATTR_OPTION_TYPE oa \<noteq> None \<and>
     TEAM_ATTR_OPTION_DATA oa \<noteq> None"

definition entry_name :: "option_attrs \<Rightarrow> string" where
  "entry_name oa = (case TEAM_ATTR_OPTION_NAME oa of Some a \<Rightarrow> nla_get_string a | None \<Rightarrow> [])"

definition entry_option :: "option_attrs \<Rightarrow> team_option option" where
  "entry_option oa =
     (case (TEAM_ATTR_OPTION_NAME oa, TEAM_ATTR_OPTION_TYPE oa, TEAM_ATTR_OPTION_DATA oa) of
        (Some a_name, Some a_type, Some a_data) \<Rightarrow>
          if nla_get_u32 a_type = NLA_U32 then
            Some \<lparr>opt_type = TEAM_OPTION_TYPE_U32,
                  opt_changed = (TEAM_ATTR_OPTION_CHANGED oa \<noteq> None),
                  name = nla_get_string a_name, data = DataU32 (nla_get_u32 a_data)\<rparr>
          else if nla_get_u32 a_type = NLA_STRING then
            Some \<lparr>opt_type = TEAM_OPTION_TYPE_STRING,
                  opt_changed = (TEAM_ATTR_OPTION_CHANGED oa \<noteq> None),
                  name = nla_get_string a_name, data = DataString (nla_get_string a_data)\<rparr>
          else None
      | _ \<Rightarrow> None)"

text \<open>
  Two facts about a handle that the exported operations maintain: no two registrations
  hold the same handler address, and no two cached options have the same name.
  \<open>keeps th th'\<close> relates a handle to a later one with the same registered handlers, in
  the same order, whose option names are distinct if they were before.
\<close>

definition keeps :: "team_handle \<Rightarrow> team_handle \<Rightarrow> bool" where
  "keeps th th' \<longleftrightarrow>
     map handler (change_handler_list th') = map handler (change_handler_list th) \<and>
     (distinct (map name (option_list th)) \<longrightarrow> distinct (map name (option_list th')))"

definition handle_inv :: "team_handle \<Rightarrow> bool" where
  "handle_inv th \<longleftrightarrow>
     distinct (map (\<lambda>hi. handler_addr (handler hi)) (change_handler_list th)) \<and>
     distinct (map name (option_list th))"

text \<open>
  The ways one element can end or pass the loops: a port element makes
  \<^verbatim>\<open>get_port_list_handler\<close> return from inside its loop when it fails to parse, lacks
  the port ifindex or gets no memory; an option element is passed over by \<^verbatim>\<open>continue\<close>
  when its name is already in the list being built or its netlink type is unknown.
\<close>

definition port_entry_aborts :: "(nat \<Rightarrow> bool) \<Rightarrow> nat \<Rightarrow> port_attrs nested \<Rightarrow> bool" where
  "port_entry_aborts ok j e \<longleftrightarrow>
     (case e of
        ParseFailed \<Rightarrow> True
      | Parsed pa \<Rightarrow> TEAM_ATTR_PORT_IFINDEX pa = None \<or> \<not> ok j)"

definition duplicate_name :: "team_option list \<Rightarrow> option_attrs \<Rightarrow> bool" where
  "duplicate_name tmp_list oa \<longleftrightarrow> find_option tmp_list (entry_name oa) \<noteq> None"

definition unknown_type :: "option_attrs \<Rightarrow> bool" where
  "unknown_type oa \<longleftrightarrow>
     (case TEAM_ATTR_OPTION_TYPE oa of
        None \<Rightarrow> False
      | Some a \<Rightarrow> nla_get_u32 a \<noteq> NLA_U32 \<and> nla_get_u32 a \<noteq> NLA_STRING)"

text \<open>
  The steps of \<^verbatim>\<open>team_init\<close> before the refreshes, as the code tests them:
  \<^verbatim>\<open>genl_connect\<close> returns zero, the two resolutions and the membership call return
  a value that is not negative. And what the kernel answers to a command that asks for
  no data: an exchange whose reply datagrams hold acknowledgements, end markers and
  errors, but no data message.
\<close>

definition sockets_connected :: "init_env \<Rightarrow> bool" where
  "sockets_connected env \<longleftrightarrow>
     genl_connect_nl_sock env = 0 \<and> genl_connect_nl_sock_event env = 0"

definition names_resolved :: "init_env \<Rightarrow> bool" where
  "names_resolved env \<longleftrightarrow> 0 \<le> genl_ctrl_resolve env \<and> 0 \<le> genl_ctrl_resolve_grp env"

definition membership_added :: "init_env \<Rightarrow> bool" where
  "membership_added env \<longleftrightarrow> 0 \<le> nl_socket_add_membership env"

definition carries_data :: "nl_delivery \<Rightarrow> bool" where
  "carries_data d \<longleftrightarrow> (case d of Valid env msg \<Rightarrow> True | _ \<Rightarrow> False)"

definition replies_without_data :: "xchg_env \<Rightarrow> bool" where
  "replies_without_data x \<longleftrightarrow> list_all (list_all (\<lambda>d. \<not> carries_data d)) (replies x)"

text \<open>
  The decoders said in the words of their outcome. An option element ends the decoding
  of its message when it fails to parse or lacks a required attribute.
  \<open>accepted_options\<close> is the list a message yields when no element ends the decoding:
  walking the elements in order, an element is passed over when its name is already in
  the list or its netlink type is unknown, and appended as an option otherwise.
  \<open>accepted_ports\<close> is the list of port records, one per element that carries a port
  ifindex.
\<close>

definition option_entry_aborts :: "option_attrs nested \<Rightarrow> bool" where
  "option_entry_aborts e \<longleftrightarrow> (case e of ParseFailed \<Rightarrow> True | Parsed oa \<Rightarrow> \<not> has_required oa)"

fun accepted_options :: "option_attrs nested list \<Rightarrow> team_option list \<Rightarrow> team_option list" where
  "accepted_options [] tmp_list = tmp_list"
| "accepted_options (ParseFailed # rest) tmp_list = accepted_options rest tmp_list"
| "accepted_options (Parsed oa # rest) tmp_list =
     (if duplicate_name tmp_list oa \<or> unknown_type oa then accepted_options rest tmp_list
      else case entry_option oa of
             None \<Rightarrow> accepted_options rest tmp_list
           | Some option \<Rightarrow> accepted_options rest (tmp_list @ [option]))"

definition accepted_ports :: "port_attrs nested list \<Rightarrow> team_port list" where
  "accepted_ports es =
     concat (map (\<lambda>e. case e of
                         ParseFailed \<Rightarrow> []
                       | Parsed pa \<Rightarrow>
                           (case TEAM_ATTR_PORT_IFINDEX pa of
                              None \<Rightarrow> []
                            | Some a \<Rightarrow> [new_port pa (nla_get_u32 a)])) es)"

text \<open>
  Registration histories. \<open>same_registrations th th'\<close>: the two handles hold the same
  handlers in the same order (the pending flags may differ); \<^verbatim>\<open>team_init\<close>,
  \<^verbatim>\<open>team_process_event\<close>, the setters and every step inside them relate a handle to
  its successor in this way. \<open>registered_since K th th'\<close>: \<open>th'\<close> comes from \<open>th\<close> by
  such steps, by registrations, and by unregistrations of handlers whose address is not
  in \<open>K\<close>.
\<close>

definition same_registrations :: "team_handle \<Rightarrow> team_handle \<Rightarrow> bool" where
  "same_registrations th th' \<longleftrightarrow>
     map handler (change_handler_list th') = map handler (change_handler_list th)"

inductive registered_since :: "nat set \<Rightarrow> team_handle \<Rightarrow> team_handle \<Rightarrow> bool"
  for K :: "nat set" where
  s_start: "registered_since K th th"
| s_same: "registered_since K th th1 \<Longrightarrow> same_registrations th1 th2 \<Longrightarrow>
     registered_since K th th2"
| s_register:
    "registered_since K th th1 \<Longrightarrow> team_change_handler_register th1 alloc_ok h = (r, th2) \<Longrightarrow>
     registered_since K th th2"
| s_unregister:
    "registered_since K th th1 \<Longrightarrow> handler_addr h \<notin> K \<Longrightarrow>
     registered_since K th (team_change_handler_unregister th1 h)"

section \<open>Concrete handles and messages\<close>

text \<open>
  Attributes as the kernel encodes them (an attribute is read only through the accessor
  of its own type, the other readings are left at zero), messages built from them, and
  the handles the concrete runs below start from.
\<close>

definition nla_of_u32 :: "u32 \<Rightarrow> nlattr" where
  "nla_of_u32 v = \<lparr>nla_get_u32 = v, nla_get_u8 = ucast v, nla_get_string = []\<rparr>"

definition nla_of_u8 :: "u8 \<Rightarrow> nlattr" where
  "nla_of_u8 v = \<lparr>nla_get_u32 = ucast v, nla_get_u8 = v, nla_get_string = []\<rparr>"

definition nla_of_string :: "string \<Rightarrow> nlattr" where
  "nla_of_string s = \<lparr>nla_get_u32 = 0, nla_get_u8 = 0, nla_get_string = s\<rparr>"

definition nla_flag :: nlattr where
  "nla_flag = \<lparr>nla_get_u32 = 0, nla_get_u8 = 0, nla_get_string = []\<rparr>"

definition env_ok :: cb_env where
  "env_ok = \<lparr>uninit_team_ifindex = 0, malloc_ok = (\<lambda>i. True)\<rparr>"

definition alloc_ok_env :: alloc_env where
  "alloc_ok_env = \<lparr>malloc_handle_ok = True, nl_socket_alloc_ok = True,
     nl_socket_alloc_event_ok = True, nl_cli_alloc_socket_ok = True, nl_cli_connect = 0,
     nl_cli_link_alloc_cache_ok = True\<rparr>"

definition th_new :: team_handle where
  "th_new = \<lparr>nl_sock = \<lparr>cb_valid = CB_DEFAULT, cb_completion = False\<rparr>,
             nl_sock_err = 0,
             nl_sock_event = \<lparr>cb_valid = CB_DEFAULT, cb_completion = False\<rparr>,
             family = 0, ifindex = 0,
             port_list = [], option_list = [], change_handler_list = []\<rparr>"

definition H_p :: team_change_handler where
  "H_p = \<lparr>handler_addr = 1, handler_type = TEAM_PORT_CHANGE\<rparr>"
definition H_a :: team_change_handler where
  "H_a = \<lparr>handler_addr = 2, handler_type = TEAM_ALL_CHANGE\<rparr>"
definition H_o :: team_change_handler where
  "H_o = \<lparr>handler_addr = 3, handler_type = TEAM_OPTION_CHANGE\<rparr>"

definition port_entry :: "u32 \<Rightarrow> u32 \<Rightarrow> u8 \<Rightarrow> bool \<Rightarrow> port_attrs nested" where
  "port_entry ifx spd dup up =
     Parsed \<lparr>TEAM_ATTR_PORT_IFINDEX = Some (nla_of_u32 ifx), TEAM_ATTR_PORT_CHANGED = None,
             TEAM_ATTR_PORT_LINKUP = (if up then Some nla_flag else None),
             TEAM_ATTR_PORT_SPEED = Some (nla_of_u32 spd),
             TEAM_ATTR_PORT_DUPLEX = Some (nla_of_u8 dup)\<rparr>"

definition option_entry :: "string \<Rightarrow> u32 \<Rightarrow> nlattr \<Rightarrow> option_attrs nested" where
  "option_entry nm nla_type payload =
     Parsed \<lparr>TEAM_ATTR_OPTION_NAME = Some (nla_of_string nm), TEAM_ATTR_OPTION_CHANGED = None,
             TEAM_ATTR_OPTION_TYPE = Some (nla_of_u32 nla_type),
             TEAM_ATTR_OPTION_DATA = Some payload\<rparr>"

definition port_list_msg :: "u32 \<Rightarrow> port_attrs nested list \<Rightarrow> nl_msg" where
  "port_list_msg team ports =
     \<lparr>cmd = TEAM_CMD_PORT_LIST_GET, TEAM_ATTR_TEAM_IFINDEX = Some (nla_of_u32 team),
      TEAM_ATTR_LIST_PORT = Some ports, TEAM_ATTR_LIST_OPTION = None\<rparr>"

definition options_msg :: "u32 \<Rightarrow> option_attrs nested list \<Rightarrow> nl_msg" where
  "options_msg team opts =
     \<lparr>cmd = TEAM_CMD_OPTIONS_GET, TEAM_ATTR_TEAM_IFINDEX = Some (nla_of_u32 team),
      TEAM_ATTR_LIST_PORT = None, TEAM_ATTR_LIST_OPTION = Some opts\<rparr>"

text \<open>The initial synchronisation on interface 7: two ports, two options.\<close>

definition S1_ports :: "port_attrs nested list" where
  "S1_ports = [port_entry 11 1000 1 True, port_entry 12 100 0 False]"

definition S1_options :: "option_attrs nested list" where
  "S1_options = [option_entry ''mode'' NLA_STRING (nla_of_string ''activebackup''),
                 option_entry ''activeport'' NLA_U32 (nla_of_u32 11)]"

definition xchg_of :: "nl_delivery list list \<Rightarrow> xchg_env" where
  "xchg_of rs = \<lparr>nlmsg_alloc_ok = True, nla_put_ok = True,
                 nl_send_auto_complete = (\<lambda>msg. 0), replies = rs\<rparr>"

definition S1_env :: init_env where
  "S1_env = \<lparr>genl_connect_nl_sock = 0, genl_connect_nl_sock_event = 0,
     genl_ctrl_resolve = 23, genl_ctrl_resolve_grp = 4, nl_socket_add_membership = 0,
     port_list_xchg = xchg_of [[Valid env_ok (port_list_msg 7 S1_ports)], [Ack]],
     options_xchg = xchg_of [[Valid env_ok (options_msg 7 S1_options)], [Ack]]\<rparr>"

definition th_two :: team_handle where
  "th_two = snd (team_change_handler_register
                   (snd (team_change_handler_register th_new True H_p)) True H_a)"

definition th_S1 :: team_handle where
  "th_S1 = \<lparr>nl_sock = \<lparr>cb_valid = CB_get_options_handler, cb_completion = True\<rparr>,
     nl_sock_err = 0,
     nl_sock_event = \<lparr>cb_valid = CB_event_handler, cb_completion = False\<rparr>,
     family = 23, ifindex = 7,
     port_list = [\<lparr>port_ifindex = 11, speed = 1000, duplex = 1, port_changed = False, linkup = True\<rparr>,
                  \<lparr>port_ifindex = 12, speed = 100, duplex = 0, port_changed = False, linkup = False\<rparr>],
     option_list = [\<lparr>opt_type = TEAM_OPTION_TYPE_STRING, opt_changed = False, name = ''mode'',
                      data = DataString ''activebackup''\<rparr>,
                    \<lparr>opt_type = TEAM_OPTION_TYPE_U32, opt_changed = False, name = ''activeport'',
                      data = DataU32 11\<rparr>],
     change_handler_list = [\<lparr>call_this = False, handler = H_a\<rparr>,
                            \<lparr>call_this = False, handler = H_p\<rparr>]\<rparr>"

text \<open>A second handler of class PORT, registered after \<open>H_p\<close>.\<close>

definition H_q :: team_change_handler where
  "H_q = \<lparr>handler_addr = 4, handler_type = TEAM_PORT_CHANGE\<rparr>"

definition th_pq :: team_handle where
  "th_pq = snd (team_change_handler_register
                  (snd (team_change_handler_register th_new True H_p)) True H_q)"

text \<open>A port list event on interface 7: port 12 alone, with its link up.\<close>

definition S5_ports :: "port_attrs nested list" where
  "S5_ports = [port_entry 12 100 0 True]"

definition th_S5 :: team_handle where
  "th_S5 = th_S1\<lparr>port_list :=
      [\<lparr>port_ifindex = 12, speed = 100, duplex = 0, port_changed = False, linkup = True\<rparr>]\<rparr>"

text \<open>
  Malformed elements, and an options message with two elements named \<open>mode\<close> together
  with the handle it leaves.
\<close>

definition port_without_ifindex :: "port_attrs nested" where
  "port_without_ifindex =
     Parsed \<lparr>TEAM_ATTR_PORT_IFINDEX = None, TEAM_ATTR_PORT_CHANGED = None,
             TEAM_ATTR_PORT_LINKUP = Some nla_flag, TEAM_ATTR_PORT_SPEED = Some (nla_of_u32 1000),
             TEAM_ATTR_PORT_DUPLEX = None\<rparr>"

definition option_without_data :: "option_attrs nested" where
  "option_without_data =
     Parsed \<lparr>TEAM_ATTR_OPTION_NAME = Some (nla_of_string ''activeport''),
             TEAM_ATTR_OPTION_CHANGED = None,
             TEAM_ATTR_OPTION_TYPE = Some (nla_of_u32 NLA_U32),
             TEAM_ATTR_OPTION_DATA = None\<rparr>"

definition S3_options :: "option_attrs nested list" where
  "S3_options = [option_entry ''mode'' NLA_STRING (nla_of_string ''roundrobin''),
                 option_entry ''mode'' NLA_STRING (nla_of_string ''activebackup'')]"

definition th_S3 :: team_handle where
  "th_S3 = th_S1\<lparr>option_list :=
      [\<lparr>opt_type = TEAM_OPTION_TYPE_STRING, opt_changed = False, name = ''mode'',
        data = DataString ''roundrobin''\<rparr>]\<rparr>"

definition oa_mode2 :: option_attrs where
  "oa_mode2 = \<lparr>TEAM_ATTR_OPTION_NAME = Some (nla_of_string ''mode''),
               TEAM_ATTR_OPTION_CHANGED = None,
               TEAM_ATTR_OPTION_TYPE = Some (nla_of_u32 NLA_STRING),
               TEAM_ATTR_OPTION_DATA = Some (nla_of_string ''activebackup'')\<rparr>"

definition oa_mode1 :: option_attrs where
  "oa_mode1 = \<lparr>TEAM_ATTR_OPTION_NAME = Some (nla_of_string ''mode''),
               TEAM_ATTR_OPTION_CHANGED = None,
               TEAM_ATTR_OPTION_TYPE = Some (nla_of_u32 NLA_STRING),
               TEAM_ATTR_OPTION_DATA = Some (nla_of_string ''roundrobin'')\<rparr>"

text \<open>
  An element named \<open>mode\<close> of netlink type 1 (neither U32 nor STRING), the messages that
  start with it, and the handle the first of them leaves.
\<close>

definition oa_mode_u :: option_attrs where
  "oa_mode_u = \<lparr>TEAM_ATTR_OPTION_NAME = Some (nla_of_string ''mode''),
                TEAM_ATTR_OPTION_CHANGED = None,
                TEAM_ATTR_OPTION_TYPE = Some (nla_of_u32 1),
                TEAM_ATTR_OPTION_DATA = Some (nla_of_u8 2)\<rparr>"

definition S3u_options :: "option_attrs nested list" where
  "S3u_options = [Parsed oa_mode_u, Parsed oa_mode2]"

definition th_S3u :: team_handle where
  "th_S3u = th_S1\<lparr>option_list :=
      [\<lparr>opt_type = TEAM_OPTION_TYPE_STRING, opt_changed = False, name = ''mode'',
        data = DataString ''activebackup''\<rparr>]\<rparr>"

definition S3w_options :: "option_attrs nested list" where
  "S3w_options = [Parsed oa_mode_u, Parsed oa_mode1, Parsed oa_mode2]"

text \<open>
  A handler of class OPTION registered between \<open>H_p\<close> and \<open>H_q\<close>, to be unregistered
  again.
\<close>

definition H_c :: team_change_handler where
  "H_c = \<lparr>handler_addr = 5, handler_type = TEAM_OPTION_CHANGE\<rparr>"

definition th_pc :: team_handle where
  "th_pc = snd (team_change_handler_register
                  (snd (team_change_handler_register th_new True H_p)) True H_c)"

definition th_pcq :: team_handle where
  "th_pcq = snd (team_change_handler_register th_pc True H_q)"

section \<open>Properties\<close>

subsection \<open>The decoders, with the flush and the splice carried out\<close>

lemma list_splice_Nil [simp]: "list_splice lst [] = lst"
  by (simp add: list_splice_def)

lemma get_port_list_handler_eq:
  "get_port_list_handler th env msg =
     (let team_ifindex =
            (case TEAM_ATTR_TEAM_IFINDEX msg of
               Some a \<Rightarrow> nla_get_u32 a | None \<Rightarrow> uninit_team_ifindex env)
      in if team_ifindex \<noteq> ifindex th then th
         else case TEAM_ATTR_LIST_PORT msg of
                None \<Rightarrow> th
              | Some nl_ports \<Rightarrow>
                  (case port_loop (malloc_ok env) 0 nl_ports [] of
                     None \<Rightarrow> th
                   | Some tmp_list \<Rightarrow>
                       set_call_change_handlers (th\<lparr>port_list := tmp_list\<rparr>) TEAM_PORT_CHANGE))"
  by (simp add: get_port_list_handler_def Let_def split: option.splits)

lemma get_options_handler_eq:
  "get_options_handler th env msg =
     (let team_ifindex =
            (case TEAM_ATTR_TEAM_IFINDEX msg of
               Some a \<Rightarrow> nla_get_u32 a | None \<Rightarrow> uninit_team_ifindex env)
      in if team_ifindex \<noteq> ifindex th then Inr th
         else case TEAM_ATTR_LIST_OPTION msg of
                None \<Rightarrow> Inr th
              | Some nl_options \<Rightarrow>
                  (case option_loop (malloc_ok env) 0 nl_options [] of
                     Inl nr \<Rightarrow> Inl nr
                   | Inr None \<Rightarrow> Inr th
                   | Inr (Some tmp_list) \<Rightarrow>
                       Inr (set_call_change_handlers (th\<lparr>option_list := tmp_list\<rparr>)
                              TEAM_OPTION_CHANGE)))"
  by (simp add: get_options_handler_def Let_def split: option.splits sum.splits)


subsection \<open>The fire sweep and the mark step, as list functions\<close>

lemma check_call_items_calls:
  "snd (check_call_items ty items) = map handler (filter (fires ty) items)"
  by (induction items) (auto split: prod.splits)

lemma check_call_items_fst:
  "fst (check_call_items ty items) =
     map (\<lambda>hi. if fires ty hi then hi\<lparr>call_this := False\<rparr> else hi) items"
  by (induction items) (auto split: prod.splits)

lemma check_call_change_handlers_eq:
  "check_call_change_handlers th ty =
     (th\<lparr>change_handler_list :=
           map (\<lambda>hi. if fires ty hi then hi\<lparr>call_this := False\<rparr> else hi)
             (change_handler_list th)\<rparr>,
      map handler (filter (fires ty) (change_handler_list th)))"
  using check_call_items_calls[of ty "change_handler_list th"]
    check_call_items_fst[of ty "change_handler_list th"]
  by (auto simp add: check_call_change_handlers_def split: prod.splits)

lemma handlers_mark [simp]:
  "map handler (change_handler_list (set_call_change_handlers th ty)) =
     map handler (change_handler_list th)"
  by (simp add: set_call_change_handlers_def mark_item_def comp_def)

lemma handlers_check [simp]:
  "map handler (change_handler_list (fst (check_call_change_handlers th ty))) =
     map handler (change_handler_list th)"
  by (simp add: check_call_change_handlers_eq comp_def)

subsection \<open>The option decoder's loop\<close>

lemma find_option_None_iff: "find_option xs nm = None \<longleftrightarrow> nm \<notin> name ` set xs"
  by (auto simp: find_option_def find_None_iff)

lemma entry_option_name: "entry_option oa = Some opt \<Longrightarrow> name opt = entry_name oa"
  by (auto simp: entry_option_def entry_name_def split: option.splits if_splits)

lemma option_loop_step:
  "option_loop ok i (Parsed oa # rest) tmp =
     (if \<not> has_required oa then Inr None
      else if find_option tmp (entry_name oa) \<noteq> None then option_loop ok (Suc i) rest tmp
      else case entry_option oa of
             None \<Rightarrow> option_loop ok (Suc i) rest tmp
           | Some opt \<Rightarrow>
               if ok i then option_loop ok (Suc i) rest (tmp @ [opt])
               else Inl NULL_DEREFERENCE)"
  by (auto simp: has_required_def entry_name_def entry_option_def Let_def add_created_def
        create_option_def list_add_tail_def split: option.splits)

declare option_loop.simps(3) [simp del]

lemma option_loop_Parsed_cases:
  assumes "option_loop ok i (Parsed oa # es) tmp = Inr (Some tmp')"
  obtains (skip) "option_loop ok (Suc i) es tmp = Inr (Some tmp')"
  | (add) opt where "entry_option oa = Some opt" "find_option tmp (entry_name oa) = None"
      "option_loop ok (Suc i) es (tmp @ [opt]) = Inr (Some tmp')"
  using assms by (auto simp: option_loop_step split: option.splits if_splits)

lemma option_loop_append_names:
  "option_loop ok i es tmp = Inr (Some tmp') \<Longrightarrow>
     \<exists>new. tmp' = tmp @ new \<and> distinct (map name new) \<and>
           name ` set new \<inter> name ` set tmp = {}"
proof (induction es arbitrary: i tmp)
  case Nil
  then show ?case by simp
next
  case (Cons e es)
  show ?case
  proof (cases e)
    case ParseFailed
    with Cons.prems show ?thesis by simp
  next
    case (Parsed oa)
    with Cons.prems have "option_loop ok i (Parsed oa # es) tmp = Inr (Some tmp')" by simp
    then show ?thesis
    proof (cases rule: option_loop_Parsed_cases)
      case skip
      then show ?thesis by (rule Cons.IH)
    next
      case (add opt)
      have fresh: "name opt \<notin> name ` set tmp"
        using add(1,2) by (simp add: entry_option_name find_option_None_iff)
      from Cons.IH[OF add(3)] obtain new where
        new: "tmp' = (tmp @ [opt]) @ new" "distinct (map name new)"
             "name ` set new \<inter> name ` set (tmp @ [opt]) = {}"
        by blast
      have "tmp' = tmp @ (opt # new)" using new(1) by simp
      moreover have "distinct (map name (opt # new))" using new(2,3) by auto
      moreover have "name ` set (opt # new) \<inter> name ` set tmp = {}"
        using new(3) fresh by auto
      ultimately show ?thesis by blast
    qed
  qed
qed

lemma option_loop_distinct:
  "option_loop ok i es [] = Inr (Some tmp') \<Longrightarrow> distinct (map name tmp')"
  using option_loop_append_names[of ok i es "[]" tmp'] by auto

lemma option_loop_app:
  "option_loop ok i (xs @ ys) tmp =
     (case option_loop ok i xs tmp of
        Inr (Some t) \<Rightarrow> option_loop ok (i + length xs) ys t
      | other \<Rightarrow> other)"
proof (induction xs arbitrary: i tmp)
  case Nil
  then show ?case by simp
next
  case (Cons e xs)
  show ?case
  proof (cases e)
    case ParseFailed
    then show ?thesis by simp
  next
    case (Parsed oa)
    have len: "i + length (Parsed oa # xs) = Suc i + length xs" by simp
    show ?thesis
      unfolding Parsed len append_Cons
      by (simp add: option_loop_step Cons.IH split: option.splits)
  qed
qed

subsection \<open>What every operation keeps\<close>

lemma keeps_refl [simp]: "keeps th th"
  by (simp add: keeps_def)

lemma keeps_trans: "keeps th th' \<Longrightarrow> keeps th' th'' \<Longrightarrow> keeps th th''"
  by (simp add: keeps_def)

lemma keeps_mark [simp]: "keeps th (set_call_change_handlers th ty)"
  by (simp add: keeps_def) (simp add: set_call_change_handlers_def)

lemma keeps_check: "check_call_change_handlers th ty = (th', calls) \<Longrightarrow> keeps th th'"
  by (auto simp: keeps_def check_call_change_handlers_eq comp_def)

lemma keeps_port_handler [simp]: "keeps th (get_port_list_handler th env msg)"
  by (simp add: keeps_def get_port_list_handler_eq Let_def set_call_change_handlers_def
        mark_item_def comp_def split: option.splits)

lemma keeps_options_handler:
  "get_options_handler th env msg = Inr th' \<Longrightarrow> keeps th th'"
  by (auto simp: keeps_def get_options_handler_eq Let_def set_call_change_handlers_def
        mark_item_def comp_def list_splice_def dest: option_loop_distinct
        split: option.splits sum.splits if_splits)

lemma keeps_event_handler: "event_handler th env msg = Inr th' \<Longrightarrow> keeps th th'"
  by (auto simp: event_handler_def dest: keeps_options_handler split: team_cmd.splits)

lemma keeps_call_valid_cb: "call_valid_cb cb th env msg = Inr th' \<Longrightarrow> keeps th th'"
  by (auto simp: call_valid_cb_def dest: keeps_options_handler keeps_event_handler
        split: valid_cb.splits)

lemma keeps_recvmsgs_event: "recvmsgs_event th inbound = Inr th' \<Longrightarrow> keeps th th'"
proof (induction inbound arbitrary: th)
  case Nil
  then show ?case by simp
next
  case (Cons a inbound)
  obtain env msg where a: "a = (env, msg)" by (cases a)
  from Cons.prems a obtain th1 where
    1: "call_valid_cb (cb_valid (nl_sock_event th)) th env msg = Inr th1"
    and 2: "recvmsgs_event th1 inbound = Inr th'"
    by (auto split: sum.splits)
  from keeps_call_valid_cb[OF 1] Cons.IH[OF 2] show ?case by (rule keeps_trans)
qed

lemma keeps_process_event:
  "team_process_event th inbound = Inr (th', calls) \<Longrightarrow> keeps th th'"
  by (auto simp: team_process_event_def split: sum.splits
        dest!: keeps_recvmsgs_event keeps_check intro: keeps_trans)

lemma keeps_nl_sock_err [simp]: "keeps th (th\<lparr>nl_sock_err := e\<rparr>)"
  by (simp add: keeps_def)

lemma keeps_recvmsgs_cmd: "recvmsgs_cmd th ds = Inr th' \<Longrightarrow> keeps th th'"
proof (induction th ds rule: recvmsgs_cmd.induct)
  case (1 th)
  then show ?case by simp
next
  case (2 th env msg rest)
  from "2.prems" obtain th1 where
    a: "call_valid_cb (cb_valid (nl_sock th)) th env msg = Inr th1"
    and b: "recvmsgs_cmd th1 rest = Inr th'"
    by (auto split: sum.splits)
  from keeps_call_valid_cb[OF a] "2.IH"[OF a b] show ?case by (rule keeps_trans)
next
  case (3 th rest)
  then show ?case by (auto simp: ack_handler_def split: if_splits)
next
  case (4 th rest)
  have "keeps th (if cb_completion (nl_sock th) then finish_handler th else th)"
    by (simp add: finish_handler_def)
  moreover have "keeps (if cb_completion (nl_sock th) then finish_handler th else th) th'"
    using 4 by simp
  ultimately show ?case by (rule keeps_trans)
next
  case (5 th e rest)
  show ?case
  proof (cases "cb_completion (nl_sock th)")
    case True
    with 5 have "keeps (error_handler th e) th'" by simp
    moreover have "keeps th (error_handler th e)" by (simp add: error_handler_def)
    ultimately show ?thesis by (rule keeps_trans[rotated])
  next
    case False
    with 5 show ?thesis by simp
  qed
qed

lemma keeps_recv_loop: "recv_loop th dss = Inr th' \<Longrightarrow> keeps th th'"
proof (induction dss arbitrary: th)
  case Nil
  then show ?case by (simp split: if_splits)
next
  case (Cons ds dss)
  show ?case
  proof (cases "nl_sock_err th > 0")
    case True
    with Cons.prems obtain th1 where a: "recvmsgs_cmd th ds = Inr th1"
      and b: "recv_loop th1 dss = Inr th'"
      by (auto split: sum.splits)
    from keeps_recvmsgs_cmd[OF a] Cons.IH[OF b] show ?thesis by (rule keeps_trans)
  next
    case False
    with Cons.prems show ?thesis by simp
  qed
qed

lemma keeps_send_and_recv: "send_and_recv th x msg cb = Inr (r, th') \<Longrightarrow> keeps th th'"
proof -
  assume a: "send_and_recv th x msg cb = Inr (r, th')"
  show ?thesis
  proof (cases "nl_send_auto_complete x msg < 0")
    case True
    with a show ?thesis by (simp add: send_and_recv_def)
  next
    case False
    let ?th2 = "(case cb of None \<Rightarrow> th\<lparr>nl_sock_err := 1\<rparr>
                 | Some c \<Rightarrow> th\<lparr>nl_sock_err := 1\<rparr>\<lparr>nl_sock := (nl_sock (th\<lparr>nl_sock_err := 1\<rparr>))\<lparr>cb_valid := c\<rparr>\<rparr>)"
    have k: "keeps th ?th2" by (simp add: keeps_def split: option.splits)
    from a False have "recv_loop ?th2 (replies x) = Inr th'"
      by (auto simp: send_and_recv_def Let_def split: sum.splits)
    from k keeps_recv_loop[OF this] show ?thesis by (rule keeps_trans)
  qed
qed

lemma keeps_set_option_value:
  "set_option_value th x nm d ty = Inr (r, th') \<Longrightarrow> keeps th th'"
  by (auto simp: set_option_value_def split: option.splits if_splits team_option_type.splits
        dest: keeps_send_and_recv)

lemma keeps_get_port_list: "get_port_list th x = Inr (r, th', calls) \<Longrightarrow> keeps th th'"
  by (auto simp: get_port_list_def split: if_splits sum.splits prod.splits
        dest!: keeps_send_and_recv keeps_check intro: keeps_trans)

lemma keeps_get_options: "get_options th x = Inr (r, th', calls) \<Longrightarrow> keeps th th'"
  by (auto simp: get_options_def split: if_splits sum.splits prod.splits
        dest!: keeps_send_and_recv keeps_check intro: keeps_trans)

lemma keeps_install: "keeps th (install_callbacks (th\<lparr>ifindex := i, family := f\<rparr>))"
  by (simp add: keeps_def install_callbacks_def)

lemma team_init_cases:
  assumes "team_init th env ifx = Inr (r, th', calls)"
  obtains (early) f where "th' = th \<or> th' = th\<lparr>ifindex := ifx\<rparr> \<or> th' = th\<lparr>ifindex := ifx, family := f\<rparr>"
  | (ports) e where
      "get_port_list (install_callbacks (th\<lparr>ifindex := ifx, family := genl_ctrl_resolve env\<rparr>))
         (port_list_xchg env) = Inr (e, th', calls)"
  | (options) e th3 c1 c2 where
      "get_port_list (install_callbacks (th\<lparr>ifindex := ifx, family := genl_ctrl_resolve env\<rparr>))
         (port_list_xchg env) = Inr (0, th3, c1)"
      "get_options th3 (options_xchg env) = Inr (e, th', c2)"
  using assms unfolding team_init_def Let_def
  by (auto split: if_splits sum.splits prod.splits)

lemma keeps_team_init:
  assumes "team_init th env ifx = Inr (r, th', calls)"
  shows "keeps th th'"
  using assms
proof (cases rule: team_init_cases)
  case (early f)
  then show ?thesis by (auto simp: keeps_def)
next
  case (ports e)
  from keeps_install keeps_get_port_list[OF ports] show ?thesis by (rule keeps_trans)
next
  case (options e th3 c1 c2)
  from keeps_install keeps_get_port_list[OF options(1)]
  have "keeps th th3" by (rule keeps_trans)
  from this keeps_get_options[OF options(2)] show ?thesis by (rule keeps_trans)
qed

lemma find_change_handler_None_iff:
  "find_change_handler th h = None \<longleftrightarrow>
     handler_addr h \<notin> set (map (\<lambda>hi. handler_addr (handler hi)) (change_handler_list th))"
  by (force simp: find_change_handler_def find_None_iff)

lemma keeps_inv: "keeps th th' \<Longrightarrow> handle_inv th \<Longrightarrow> handle_inv th'"
proof -
  assume k: "keeps th th'" and i: "handle_inv th"
  have "map (\<lambda>hi. handler_addr (handler hi)) (change_handler_list th') =
        map handler_addr (map handler (change_handler_list th'))" by (simp add: comp_def)
  also have "\<dots> = map handler_addr (map handler (change_handler_list th))"
    using k by (simp add: keeps_def)
  also have "\<dots> = map (\<lambda>hi. handler_addr (handler hi)) (change_handler_list th)"
    by (simp add: comp_def)
  finally show ?thesis using k i by (simp add: keeps_def handle_inv_def)
qed

lemma inv_register:
  "handle_inv th \<Longrightarrow> team_change_handler_register th ok h = (r, th') \<Longrightarrow> handle_inv th'"
  by (auto simp: team_change_handler_register_def handle_inv_def list_add_def
        find_change_handler_None_iff split: if_splits)

lemma distinct_map_remove1: "distinct (map f xs) \<Longrightarrow> distinct (map f (remove1 x xs))"
  by (metis distinct_map distinct_remove1 inj_on_subset set_remove1_subset)

lemma inv_unregister: "handle_inv th \<Longrightarrow> handle_inv (team_change_handler_unregister th h)"
  by (auto simp: team_change_handler_unregister_def handle_inv_def distinct_map_remove1
        split: option.splits)

lemma inv_alloc: "team_alloc env = Some th \<Longrightarrow> handle_inv th"
  by (auto simp: team_alloc_def handle_inv_def split: if_splits)

lemma reachable_inv: "reachable th \<Longrightarrow> handle_inv th"
proof (induction rule: reachable.induct)
  case (r_alloc env th)
  then show ?case by (rule inv_alloc)
next
  case (r_init th ienv ifx r th' calls)
  then show ?case by (blast intro: keeps_inv keeps_team_init)
next
  case (r_process_event th inbound th' calls)
  then show ?case by (blast intro: keeps_inv keeps_process_event)
next
  case (r_register th alloc_ok h r th')
  then show ?case by (blast intro: inv_register)
next
  case (r_unregister th h)
  then show ?case by (blast intro: inv_unregister)
next
  case (r_set_u32 th x nm val r th')
  then show ?case
    by (auto simp: team_set_option_value_by_name_u32_def intro: keeps_inv keeps_set_option_value)
next
  case (r_set_string th x nm str r th')
  then show ?case
    by (auto simp: team_set_option_value_by_name_string_def intro: keeps_inv keeps_set_option_value)
qed

subsection \<open>Running the model on concrete inputs\<close>

lemma th_new_alloc: "team_alloc alloc_ok_env = Some th_new"
  by (simp add: team_alloc_def alloc_ok_env_def th_new_def)

lemma th_two_eq: "th_two = th_new\<lparr>change_handler_list := [\<lparr>call_this = False, handler = H_a\<rparr>,
                            \<lparr>call_this = False, handler = H_p\<rparr>]\<rparr>"
  by (simp add: th_two_def team_change_handler_register_def find_change_handler_def th_new_def
      list_add_def H_a_def H_p_def)

lemma S1_ports_loop: "port_loop (\<lambda>i. True) 0 S1_ports [] = Some (port_list th_S1)"
  by (simp add: S1_ports_def port_entry_def new_port_def list_add_tail_def th_S1_def
       nla_of_u32_def nla_of_u8_def nla_flag_def)

lemma S1_options_loop: "option_loop (\<lambda>i. True) 0 S1_options [] = Inr (Some (option_list th_S1))"
  by (simp add: S1_options_def option_entry_def option_loop_step has_required_def entry_name_def
       entry_option_def find_option_def th_S1_def nla_of_string_def nla_of_u32_def NLA_U32_def NLA_STRING_def)

lemmas run_defs =
  team_init_def Let_def install_callbacks_def get_port_list_def get_options_def
  send_and_recv_def ack_handler_def finish_handler_def error_handler_def call_valid_cb_def
  get_port_list_handler_eq get_options_handler_eq event_handler_def list_splice_def
  set_call_change_handlers_def mark_item_def check_call_change_handlers_eq fires_def
  team_process_event_def set_option_value_def team_change_handler_register_def
  team_change_handler_unregister_def find_change_handler_def list_add_def list_add_tail_def

lemmas fixture_defs =
  env_ok_def port_list_msg_def options_msg_def nla_of_u32_def nla_of_u8_def nla_of_string_def
  nla_flag_def xchg_of_def H_a_def H_p_def H_o_def th_new_def

lemma S1_init: "team_init th_two S1_env 7 = Inr (0, th_S1, [H_p])"
  by (simp add: S1_env_def th_two_eq run_defs fixture_defs S1_ports_loop S1_options_loop)
     (simp add: th_S1_def fixture_defs)

lemma find_Some_split:
  "find P xs = Some x \<Longrightarrow> \<exists>ys zs. xs = ys @ x # zs \<and> P x \<and> (\<forall>y\<in>set ys. \<not> P y)"
proof (induction xs)
  case Nil
  then show ?case by simp
next
  case (Cons a xs)
  show ?case
  proof (cases "P a")
    case True
    with Cons.prems have "a # xs = [] @ x # xs \<and> P x \<and> (\<forall>y\<in>set []. \<not> P y)" by simp
    then show ?thesis by blast
  next
    case False
    with Cons.prems have "find P xs = Some x" by simp
    from Cons.IH[OF this] obtain ys zs where "xs = ys @ x # zs" "P x" "\<forall>y\<in>set ys. \<not> P y"
      by blast
    with False have "a # xs = (a # ys) @ x # zs \<and> P x \<and> (\<forall>y\<in>set (a # ys). \<not> P y)" by simp
    then show ?thesis by blast
  qed
qed

lemma remove1_first: "x \<notin> set ys \<Longrightarrow> remove1 x (ys @ x # zs) = ys @ zs"
  by (simp add: remove1_append)

lemma reachable_th_two: "reachable th_two"
proof -
  have 0: "reachable th_new" by (rule r_alloc[OF th_new_alloc])
  have 1: "reachable (snd (team_change_handler_register th_new True H_p))"
    by (rule r_register[OF 0, of True H_p "fst (team_change_handler_register th_new True H_p)"]) simp
  show ?thesis unfolding th_two_def
    by (rule r_register[OF 1, of True H_a
          "fst (team_change_handler_register (snd (team_change_handler_register th_new True H_p)) True H_a)"])
      simp
qed

lemma sweep_calls:
  "snd (check_call_change_handlers th ty) = map handler (filter (fires ty) (change_handler_list th))"
  by (simp add: check_call_change_handlers_eq)

lemma register_ok_list:
  assumes "team_change_handler_register th ok h = (0, th')"
  shows "change_handler_list th' = \<lparr>call_this = False, handler = h\<rparr> # change_handler_list th"
    and "\<forall>x\<in>set (change_handler_list th). handler_addr (handler x) \<noteq> handler_addr h"
  using assms
  by (auto simp: team_change_handler_register_def list_add_def EEXIST_def ENOMEM_def
        find_change_handler_def find_None_iff split: if_splits)

lemma count_list_distinct_le: "distinct xs \<Longrightarrow> count_list xs x \<le> 1"
  by (induction xs) auto

lemma count_list_distinct_mem: "distinct xs \<Longrightarrow> x \<in> set xs \<Longrightarrow> count_list xs x = 1"
  by (induction xs) auto

lemma distinct_handlers:
  "distinct (map (\<lambda>hi. handler_addr (handler hi)) xs) \<Longrightarrow> distinct (map handler xs)"
  by (induction xs) auto

lemma sweep_clears:
  assumes "check_call_change_handlers th ty = (th', calls)"
  shows "\<forall>hi\<in>set (change_handler_list th'). \<not> fires ty hi"
proof -
  from assms have "th' = fst (check_call_change_handlers th ty)" by simp
  then have "change_handler_list th' =
      map (\<lambda>hi. if fires ty hi then hi\<lparr>call_this := False\<rparr> else hi) (change_handler_list th)"
    by (simp add: check_call_change_handlers_eq)
  then show ?thesis by (auto simp: fires_def)
qed

lemma reachable_th_S1: "reachable th_S1"
  by (rule r_init[OF reachable_th_two S1_init])

lemma S5_ports_loop: "port_loop (\<lambda>i. True) 0 S5_ports [] = Some (port_list th_S5)"
  by (simp add: S5_ports_def port_entry_def new_port_def list_add_tail_def th_S5_def
       nla_of_u32_def nla_of_u8_def nla_flag_def)


lemma S5_run:
  "team_process_event th_S1
     [(env_ok, port_list_msg 7 S1_ports), (env_ok, port_list_msg 7 S5_ports)] =
   Inr (th_S5, [H_p])"
  by (simp add: th_S1_def run_defs fixture_defs S1_ports_loop[unfolded th_S1_def, simplified] S5_ports_loop)
     (simp add: th_S5_def th_S1_def fixture_defs)

subsection \<open>The port decoder's loop\<close>

lemma port_loop_None_iff:
  "port_loop ok i es tmp = None \<longleftrightarrow> (\<exists>j<length es. port_entry_aborts ok (i + j) (es ! j))"
proof (induction es arbitrary: i tmp)
  case Nil
  then show ?case by simp
next
  case (Cons e es)
  have ex: "(\<exists>j<length (e # es). port_entry_aborts ok (i + j) ((e # es) ! j)) \<longleftrightarrow>
            port_entry_aborts ok i e \<or> (\<exists>j<length es. port_entry_aborts ok (Suc i + j) (es ! j))"
    by (auto simp: less_Suc_eq_0_disj)
  show ?case
  proof (cases e)
    case ParseFailed
    then show ?thesis unfolding ex by (simp add: port_entry_aborts_def)
  next
    case (Parsed pa)
    then show ?thesis unfolding ex
      by (simp add: port_entry_aborts_def Cons.IH split: option.splits)
  qed
qed

lemma port_loop_length:
  "port_loop ok i es tmp = Some tmp' \<Longrightarrow> length tmp' = length tmp + length es"
proof (induction es arbitrary: i tmp)
  case Nil
  then show ?case by simp
next
  case (Cons e es)
  show ?case
  proof (cases e)
    case ParseFailed
    with Cons.prems show ?thesis by simp
  next
    case (Parsed pa)
    with Cons.prems obtain a :: nlattr where
      "port_loop ok (Suc i) es (list_add_tail (new_port pa (nla_get_u32 a)) tmp) = Some tmp'"
      by (auto split: option.splits if_splits)
    from Cons.IH[OF this] show ?thesis by (simp add: list_add_tail_def)
  qed
qed

lemma sweep_nothing_pending:
  assumes "\<forall>hi\<in>set (change_handler_list th). \<not> call_this hi"
  shows "check_call_change_handlers th ty = (th, [])"
proof -
  from assms have 1: "filter (fires ty) (change_handler_list th) = []"
    by (auto simp: fires_def filter_empty_conv)
  from assms have "map (\<lambda>hi. if fires ty hi then hi\<lparr>call_this := False\<rparr> else hi)
                     (change_handler_list th) = change_handler_list th"
    by (intro map_idI) (simp add: fires_def)
  with 1 show ?thesis by (simp add: check_call_change_handlers_eq)
qed

lemma S3_options_eq: "S3_options = [Parsed oa_mode1, Parsed oa_mode2]"
  by (simp add: S3_options_def option_entry_def oa_mode1_def oa_mode2_def)

lemmas option_eval =
  option_loop_step has_required_def entry_name_def entry_option_def find_option_def
  NLA_STRING_def NLA_U32_def

lemma S3_options_loop:
  "option_loop (\<lambda>i. True) 0 S3_options [] = Inr (Some (option_list th_S3))"
  by (simp add: S3_options_eq oa_mode1_def oa_mode2_def option_eval th_S3_def fixture_defs)

lemma S3_handler: "get_options_handler th_S1 env_ok (options_msg 7 S3_options) = Inr th_S3"
  by (simp add: get_options_handler_eq options_msg_def nla_of_u32_def env_ok_def S3_options_loop
        list_splice_def)
     (simp add: th_S3_def th_S1_def set_call_change_handlers_def mark_item_def fixture_defs)

lemma option_loop_names_decoded:
  "option_loop ok i es tmp = Inr (Some tmp') \<Longrightarrow> opt \<in> set tmp' \<Longrightarrow>
     name opt \<in> name ` set tmp \<or>
     (\<exists>oa. Parsed oa \<in> set es \<and> entry_option oa \<noteq> None \<and> entry_name oa = name opt)"
proof (induction es arbitrary: i tmp)
  case Nil
  then show ?case by simp
next
  case (Cons e es)
  show ?case
  proof (cases e)
    case ParseFailed
    with Cons.prems show ?thesis by simp
  next
    case (Parsed oa)
    with Cons.prems have "option_loop ok i (Parsed oa # es) tmp = Inr (Some tmp')" by simp
    then show ?thesis
    proof (cases rule: option_loop_Parsed_cases)
      case skip
      from Cons.IH[OF skip Cons.prems(2)] show ?thesis by auto
    next
      case (add o1)
      from Cons.IH[OF add(3) Cons.prems(2)]
      consider "name opt \<in> name ` set tmp" | "name opt = name o1"
        | "\<exists>oa. Parsed oa \<in> set es \<and> entry_option oa \<noteq> None \<and> entry_name oa = name opt"
        by auto
      then show ?thesis
      proof cases
        case 1
        then show ?thesis by simp
      next
        case 2
        with entry_option_name[OF add(1)] add(1) Parsed
        have "Parsed oa \<in> set (e # es) \<and> entry_option oa \<noteq> None \<and> entry_name oa = name opt"
          by simp
        then show ?thesis by blast
      next
        case 3
        then show ?thesis by auto
      qed
    qed
  qed
qed

lemma find_option_append:
  "find_option (xs @ ys) nm = (case find_option xs nm of None \<Rightarrow> find_option ys nm | Some x \<Rightarrow> Some x)"
  by (induction xs) (auto simp: find_option_def)

lemma first_decoded_entry_wins:
  assumes loop: "option_loop ok i (pre @ Parsed oa1 # rest) [] = Inr (Some tmp')"
    and first: "\<forall>oa. Parsed oa \<in> set pre \<and> entry_name oa = entry_name oa1 \<longrightarrow>
                  entry_option oa = None"
    and acc: "entry_option oa1 = Some opt1"
  shows "find_option tmp' (entry_name oa1) = Some opt1 \<and>
         length (filter (\<lambda>option. name option = entry_name oa1) tmp') = 1"
proof -
  let ?nm = "entry_name oa1"
  from loop obtain t1 where
    pre: "option_loop ok i pre [] = Inr (Some t1)"
    and rest: "option_loop ok (i + length pre) (Parsed oa1 # rest) t1 = Inr (Some tmp')"
    by (auto simp: option_loop_app split: sum.splits option.splits)
  have fresh: "?nm \<notin> name ` set t1"
  proof
    assume "?nm \<in> name ` set t1"
    then obtain opt where "opt \<in> set t1" "name opt = ?nm" by auto
    from option_loop_names_decoded[OF pre this(1)] this(2) first show False by auto
  qed
  then have nf: "find_option t1 ?nm = None" by (simp add: find_option_None_iff)
  from acc have req: "has_required oa1"
    by (auto simp: entry_option_def has_required_def split: option.splits)
  from rest req nf acc have
    tail: "option_loop ok (Suc (i + length pre)) rest (t1 @ [opt1]) = Inr (Some tmp')"
    by (auto simp: option_loop_step split: if_splits)
  from option_loop_append_names[OF tail] obtain new where
    new: "tmp' = (t1 @ [opt1]) @ new" "name ` set new \<inter> name ` set (t1 @ [opt1]) = {}"
    by blast
  have n1: "name opt1 = ?nm" using acc by (rule entry_option_name)
  with new(2) have fresh2: "?nm \<notin> name ` set new" by auto
  have "find_option tmp' ?nm = Some opt1"
    using new(1) nf n1 by (simp add: find_option_append) (simp add: find_option_def)
  moreover have "filter (\<lambda>option. name option = ?nm) t1 = []"
    using fresh by (force simp: filter_empty_conv)
  moreover have "filter (\<lambda>option. name option = ?nm) new = []"
    using fresh2 by (force simp: filter_empty_conv)
  ultimately show ?thesis using new(1) n1 by simp
qed

lemma S3w_options_loop:
  "option_loop (\<lambda>i. True) 0 S3w_options [] = Inr (Some (option_list th_S3))"
  by (simp add: S3w_options_def oa_mode_u_def oa_mode1_def oa_mode2_def option_eval th_S3_def
        fixture_defs)

lemma S3w_handler: "get_options_handler th_S1 env_ok (options_msg 7 S3w_options) = Inr th_S3"
  by (simp add: get_options_handler_eq options_msg_def nla_of_u32_def env_ok_def S3w_options_loop)
     (simp add: th_S3_def th_S1_def set_call_change_handlers_def mark_item_def fixture_defs)

subsection \<open>An exchange whose replies carry no data\<close>

lemma recvmsgs_cmd_no_data:
  "recvmsgs_cmd th ds = Inr th' \<Longrightarrow> list_all (\<lambda>d. \<not> carries_data d) ds \<Longrightarrow>
     th' = th\<lparr>nl_sock_err := nl_sock_err th'\<rparr>"
proof (induction th ds rule: recvmsgs_cmd.induct)
  case (1 th)
  then show ?case by simp
next
  case (2 th env msg rest)
  then show ?case by (simp add: carries_data_def)
next
  case (3 th rest)
  then show ?case by (auto simp: ack_handler_def split: if_splits)
next
  case (4 th rest)
  let ?t = "if cb_completion (nl_sock th) then finish_handler th else th"
  from 4 have "th' = ?t\<lparr>nl_sock_err := nl_sock_err th'\<rparr>" by simp
  then show ?case by (auto simp: finish_handler_def split: if_splits)
next
  case (5 th e rest)
  show ?case
  proof (cases "cb_completion (nl_sock th)")
    case True
    with 5 have "th' = (error_handler th e)\<lparr>nl_sock_err := nl_sock_err th'\<rparr>" by simp
    then show ?thesis by (simp add: error_handler_def)
  next
    case False
    with 5 show ?thesis by simp
  qed
qed

lemma recv_loop_no_data:
  "recv_loop th dss = Inr th' \<Longrightarrow> list_all (list_all (\<lambda>d. \<not> carries_data d)) dss \<Longrightarrow>
     th' = th\<lparr>nl_sock_err := nl_sock_err th'\<rparr>"
proof (induction dss arbitrary: th)
  case Nil
  then show ?case by (simp split: if_splits)
next
  case (Cons ds dss)
  show ?case
  proof (cases "nl_sock_err th > 0")
    case True
    with Cons.prems obtain th1 where a: "recvmsgs_cmd th ds = Inr th1"
      and b: "recv_loop th1 dss = Inr th'"
      by (auto split: sum.splits)
    from recvmsgs_cmd_no_data[OF a] Cons.prems(2)
    have 1: "th1 = th\<lparr>nl_sock_err := nl_sock_err th1\<rparr>" by simp
    from Cons.IH[OF b] Cons.prems(2)
    have 2: "th' = th1\<lparr>nl_sock_err := nl_sock_err th'\<rparr>" by simp
    from 2 show ?thesis by (subst (asm) 1) simp
  next
    case False
    with Cons.prems show ?thesis by simp
  qed
qed

lemma set_option_value_frame:
  assumes "replies_without_data x" and "set_option_value th x nm d ty = Inr (r, th')"
  shows "th' = th\<lparr>nl_sock_err := nl_sock_err th'\<rparr>"
proof (cases "th' = th")
  case True
  then show ?thesis by simp
next
  case False
  with assms(2) have "recv_loop (th\<lparr>nl_sock_err := 1\<rparr>) (replies x) = Inr th'"
    by (auto simp: set_option_value_def send_and_recv_def Let_def
          split: team_option_type.splits if_splits sum.splits)
  from recv_loop_no_data[OF this] assms(1) show ?thesis
    by (simp add: replies_without_data_def)
qed

subsection \<open>The decoders from end to end\<close>

lemma ex_index_Cons:
  "(\<exists>j<length (e # es). P j ((e # es) ! j)) \<longleftrightarrow> P 0 e \<or> (\<exists>j<length es. P (Suc j) (es ! j))"
  by (auto simp: less_Suc_eq_0_disj)

lemma ex_nth_set: "(\<exists>j<length es. P (es ! j)) \<longleftrightarrow> (\<exists>e\<in>set es. P e)"
  by (metis in_set_conv_nth)

lemma unknown_type_entry_option:
  "has_required oa \<Longrightarrow> unknown_type oa \<longleftrightarrow> entry_option oa = None"
  by (auto simp: unknown_type_def entry_option_def has_required_def split: option.splits)

lemma option_loop_result:
  "option_loop ok i es tmp = Inr r \<Longrightarrow>
     r = (if \<exists>j<length es. option_entry_aborts (es ! j) then None
          else Some (accepted_options es tmp))"
proof (induction es arbitrary: i tmp)
  case Nil
  then show ?case by simp
next
  case (Cons e es)
  note ex = ex_index_Cons[of e es "\<lambda>j. option_entry_aborts"]
  show ?case
  proof (cases e)
    case ParseFailed
    with Cons.prems show ?thesis unfolding ex by (simp add: option_entry_aborts_def)
  next
    case (Parsed oa)
    show ?thesis
    proof (cases "has_required oa")
      case False
      with Cons.prems Parsed show ?thesis unfolding ex
        by (simp add: option_entry_aborts_def option_loop_step)
    next
      case True
      then have na: "\<not> option_entry_aborts e" using Parsed by (simp add: option_entry_aborts_def)
      from Cons.prems Parsed True
      consider (skip) "duplicate_name tmp oa \<or> unknown_type oa"
          "option_loop ok (Suc i) es tmp = Inr r"
        | (add) opt where "\<not> duplicate_name tmp oa" "entry_option oa = Some opt"
          "option_loop ok (Suc i) es (tmp @ [opt]) = Inr r"
        by (auto simp: option_loop_step duplicate_name_def unknown_type_entry_option
              split: option.splits if_splits)
      then show ?thesis
      proof cases
        case skip
        from Cons.IH[OF skip(2)] skip(1) na Parsed show ?thesis unfolding ex by auto
      next
        case add
        from add(2) True have "\<not> unknown_type oa" by (simp add: unknown_type_entry_option)
        with Cons.IH[OF add(3)] add(1,2) na Parsed show ?thesis unfolding ex by auto
      qed
    qed
  qed
qed

lemma option_loop_returns:
  "\<forall>j<length es. ok (i + j) \<Longrightarrow> \<exists>r. option_loop ok i es tmp = Inr r"
proof (induction es arbitrary: i tmp)
  case Nil
  then show ?case by simp
next
  case (Cons e es)
  from Cons.prems have 0: "ok i" by force
  from Cons.prems have "\<forall>j<length es. ok (Suc i + j)" by force
  note ih = Cons.IH[OF this]
  show ?case
  proof (cases e)
    case ParseFailed
    then show ?thesis by simp
  next
    case (Parsed oa)
    with 0 ih show ?thesis by (simp add: option_loop_step split: option.splits)
  qed
qed

lemma port_loop_result:
  "port_loop ok i es tmp =
     (if \<exists>j<length es. port_entry_aborts ok (i + j) (es ! j) then None
      else Some (tmp @ accepted_ports es))"
proof (induction es arbitrary: i tmp)
  case Nil
  then show ?case by (simp add: accepted_ports_def)
next
  case (Cons e es)
  note ex = ex_index_Cons[of e es "\<lambda>j. port_entry_aborts ok (i + j)"]
  show ?case
  proof (cases e)
    case ParseFailed
    then show ?thesis unfolding ex by (simp add: port_entry_aborts_def)
  next
    case (Parsed pa)
    then show ?thesis unfolding ex
      by (simp add: port_entry_aborts_def Cons.IH accepted_ports_def list_add_tail_def
            split: option.splits)
  qed
qed

subsection \<open>The order of the registrations\<close>

lemma keeps_same_registrations: "keeps th th' \<Longrightarrow> same_registrations th th'"
  by (simp add: keeps_def same_registrations_def)

lemma filter_remove1_other: "\<not> P c \<Longrightarrow> filter P (remove1 c xs) = filter P xs"
  by (induction xs) auto

lemma filter_key_single:
  "distinct (map f xs) \<Longrightarrow> x \<in> set xs \<Longrightarrow> filter (\<lambda>y. f y = f x) xs = [x]"
proof (induction xs)
  case Nil
  then show ?case by simp
next
  case (Cons a xs)
  show ?case
  proof (cases "a = x")
    case True
    from Cons.prems(1) True have "f x \<notin> f ` set xs" by simp
    then have "\<forall>y\<in>set xs. f y \<noteq> f x" by (metis imageI)
    then have "filter (\<lambda>y. f y = f x) xs = []"
      by (simp add: filter_empty_conv)
    with True show ?thesis by simp
  next
    case False
    with Cons.prems have "x \<in> set xs" "f a \<noteq> f x" by auto
    with Cons show ?thesis by simp
  qed
qed

lemma registered_since_projection:
  assumes "registered_since K th th2"
    and "K \<subseteq> (\<lambda>hi. handler_addr (handler hi)) ` set (change_handler_list th)"
  shows "map handler (filter (\<lambda>hi. handler_addr (handler hi) \<in> K) (change_handler_list th2)) =
         map handler (filter (\<lambda>hi. handler_addr (handler hi) \<in> K) (change_handler_list th))"
  using assms
proof (induction rule: registered_since.induct)
  case (s_start th)
  then show ?case by simp
next
  case (s_same th th1 th2)
  have "map handler (filter (\<lambda>hi. handler_addr (handler hi) \<in> K) (change_handler_list th2)) =
        filter (\<lambda>h. handler_addr h \<in> K) (map handler (change_handler_list th2))"
    by (simp add: filter_map comp_def)
  also have "\<dots> = filter (\<lambda>h. handler_addr h \<in> K) (map handler (change_handler_list th1))"
    using s_same.hyps(2) by (simp add: same_registrations_def)
  also have "\<dots> = map handler (filter (\<lambda>hi. handler_addr (handler hi) \<in> K) (change_handler_list th1))"
    by (simp add: filter_map comp_def)
  finally show ?case using s_same.IH[OF s_same.prems] by simp
next
  case (s_register th th1 alloc_ok h r th2)
  note ih = s_register.IH[OF s_register.prems]
  show ?case
  proof (cases "th2 = th1")
    case True
    with ih show ?thesis by simp
  next
    case False
    with s_register.hyps(2) have
      new: "change_handler_list th2 = \<lparr>call_this = False, handler = h\<rparr> # change_handler_list th1"
      and fresh: "find_change_handler th1 h = None"
      by (auto simp: team_change_handler_register_def list_add_def split: if_splits)
    have "handler_addr h \<notin> K"
    proof
      assume "handler_addr h \<in> K"
      with s_register.prems obtain hi where
        "hi \<in> set (change_handler_list th)" "handler_addr (handler hi) = handler_addr h"
        by auto
      then have "handler hi \<in> set (map handler
          (filter (\<lambda>hi. handler_addr (handler hi) \<in> K) (change_handler_list th)))"
        using \<open>handler_addr h \<in> K\<close> by auto
      with ih have "handler hi \<in> set (map handler
          (filter (\<lambda>hi. handler_addr (handler hi) \<in> K) (change_handler_list th1)))"
        by simp
      then obtain hj where "hj \<in> set (change_handler_list th1)" "handler hj = handler hi"
        by auto
      with \<open>handler_addr (handler hi) = handler_addr h\<close> fresh show False
        by (auto simp: find_change_handler_def find_None_iff)
    qed
    with new ih show ?thesis by simp
  qed
next
  case (s_unregister th th1 h)
  note ih = s_unregister.IH[OF s_unregister.prems]
  show ?case
  proof (cases "find_change_handler th1 h")
    case None
    with ih show ?thesis by (simp add: team_change_handler_unregister_def)
  next
    case (Some c)
    then have "handler_addr (handler c) = handler_addr h"
      unfolding find_change_handler_def by (auto dest: find_Some_split)
    with s_unregister.hyps(2) have "\<not> handler_addr (handler c) \<in> K" by simp
    then have "filter (\<lambda>hi. handler_addr (handler hi) \<in> K) (remove1 c (change_handler_list th1)) =
          filter (\<lambda>hi. handler_addr (handler hi) \<in> K) (change_handler_list th1)"
      by (rule filter_remove1_other)
    with Some ih show ?thesis by (simp add: team_change_handler_unregister_def)
  qed
qed

lemma filter_eq_ConsD:
  "filter P xs = y # ys \<Longrightarrow>
     \<exists>us vs. xs = us @ y # vs \<and> (\<forall>u\<in>set us. \<not> P u) \<and> P y \<and> filter P vs = ys"
  by (auto simp: filter_eq_Cons_iff)

lemma filter_eq_two:
  assumes "filter P xs = [u, v]"
  obtains l2 l1 l0 where "xs = l2 @ u # l1 @ v # l0"
    "\<forall>x\<in>set l2. \<not> P x" "\<forall>x\<in>set l1. \<not> P x" "\<forall>x\<in>set l0. \<not> P x"
proof -
  from filter_eq_ConsD[OF assms] obtain l2 r where
    1: "xs = l2 @ u # r" "\<forall>x\<in>set l2. \<not> P x" "filter P r = [v]"
    by blast
  from filter_eq_ConsD[OF 1(3)] obtain l1 l0 where
    2: "r = l1 @ v # l0" "\<forall>x\<in>set l1. \<not> P x" "filter P l0 = []"
    by blast
  from 2(3) have "\<forall>x\<in>set l0. \<not> P x" by (simp add: filter_empty_conv)
  with 1 2 that show thesis by simp
qed

lemma reachable_th_pc: "reachable th_pc"
proof -
  have 0: "reachable th_new" by (rule r_alloc[OF th_new_alloc])
  have 1: "reachable (snd (team_change_handler_register th_new True H_p))"
    by (rule r_register[OF 0, of True H_p "fst (team_change_handler_register th_new True H_p)"]) simp
  show ?thesis unfolding th_pc_def
    by (rule r_register[OF 1, of True H_c
          "fst (team_change_handler_register (snd (team_change_handler_register th_new True H_p)) True H_c)"])
      simp
qed

section \<open>The claims\<close>

subsection \<open>Registering and unregistering change handlers\<close>

text \<open>
  Claim C9. \<^verbatim>\<open>team_change_handler_register\<close> returns \<open>-EEXIST\<close> when a registration
  with the same handler address exists, \<open>-ENOMEM\<close> when the allocation fails, and
  otherwise adds a registration whose \<^verbatim>\<open>call_this\<close> flag is false and returns 0.
  \<^verbatim>\<open>team_change_handler_unregister\<close> leaves the handle as it is when the handler is not
  registered; for a registered handler it unlinks exactly the registration found, after
  which (on a handle the exported operations can produce) the handler is no longer
  registered.
\<close>

theorem register_unregister_contract:
  "(find_change_handler th h \<noteq> None \<longrightarrow>
      team_change_handler_register th alloc_ok h = (- EEXIST, th)) \<and>
   (find_change_handler th h = None \<and> \<not> alloc_ok \<longrightarrow>
      team_change_handler_register th alloc_ok h = (- ENOMEM, th)) \<and>
   (find_change_handler th h = None \<and> alloc_ok \<longrightarrow>
      team_change_handler_register th alloc_ok h =
        (0, th\<lparr>change_handler_list :=
                 \<lparr>call_this = False, handler = h\<rparr> # change_handler_list th\<rparr>)) \<and>
   (find_change_handler th h = None \<longrightarrow> team_change_handler_unregister th h = th) \<and>
   (\<forall>hi. find_change_handler th h = Some hi \<longrightarrow>
      (\<exists>before after.
         change_handler_list th = before @ hi # after \<and>
         (\<forall>x\<in>set before. handler_addr (handler x) \<noteq> handler_addr h) \<and>
         handler_addr (handler hi) = handler_addr h \<and>
         team_change_handler_unregister th h =
           th\<lparr>change_handler_list := before @ after\<rparr>)) \<and>
   (reachable th \<longrightarrow>
      find_change_handler (team_change_handler_unregister th h) h = None)"
proof (intro conjI impI allI)
  show "team_change_handler_register th alloc_ok h = (- EEXIST, th)"
    if "find_change_handler th h \<noteq> None"
    using that by (simp add: team_change_handler_register_def)
  show "team_change_handler_register th alloc_ok h = (- ENOMEM, th)"
    if "find_change_handler th h = None \<and> \<not> alloc_ok"
    using that by (simp add: team_change_handler_register_def)
  show "team_change_handler_register th alloc_ok h =
        (0, th\<lparr>change_handler_list :=
                 \<lparr>call_this = False, handler = h\<rparr> # change_handler_list th\<rparr>)"
    if "find_change_handler th h = None \<and> alloc_ok"
    using that by (simp add: team_change_handler_register_def list_add_def)
  show "team_change_handler_unregister th h = th" if "find_change_handler th h = None"
    using that by (simp add: team_change_handler_unregister_def)
  show "\<exists>before after.
         change_handler_list th = before @ hi # after \<and>
         (\<forall>x\<in>set before. handler_addr (handler x) \<noteq> handler_addr h) \<and>
         handler_addr (handler hi) = handler_addr h \<and>
         team_change_handler_unregister th h =
           th\<lparr>change_handler_list := before @ after\<rparr>"
    if f: "find_change_handler th h = Some hi" for hi
  proof -
    from f obtain ys zs where
      s: "change_handler_list th = ys @ hi # zs" "handler_addr (handler hi) = handler_addr h"
         "\<forall>y\<in>set ys. handler_addr (handler y) \<noteq> handler_addr h"
      unfolding find_change_handler_def by (blast dest: find_Some_split)
    from s(2,3) have "hi \<notin> set ys" by auto
    then have "remove1 hi (change_handler_list th) = ys @ zs"
      using s(1) by (simp add: remove1_first)
    with f have "team_change_handler_unregister th h = th\<lparr>change_handler_list := ys @ zs\<rparr>"
      by (simp add: team_change_handler_unregister_def)
    with s show ?thesis by blast
  qed
  show "find_change_handler (team_change_handler_unregister th h) h = None" if r: "reachable th"
  proof (cases "find_change_handler th h")
    case None
    then show ?thesis by (simp add: team_change_handler_unregister_def)
  next
    case (Some hi)
    then obtain ys zs where
      s: "change_handler_list th = ys @ hi # zs" "handler_addr (handler hi) = handler_addr h"
         "\<forall>y\<in>set ys. handler_addr (handler y) \<noteq> handler_addr h"
      unfolding find_change_handler_def by (blast dest: find_Some_split)
    from s(2,3) have "hi \<notin> set ys" by auto
    then have rm: "remove1 hi (change_handler_list th) = ys @ zs"
      using s(1) by (simp add: remove1_first)
    from reachable_inv[OF r] s(1)
    have "distinct (map (\<lambda>hi. handler_addr (handler hi)) (ys @ hi # zs))"
      by (simp add: handle_inv_def)
    with s(2) have "\<forall>z\<in>set zs. handler_addr (handler z) \<noteq> handler_addr h"
      by force
    with s(3) rm Some show ?thesis
      by (auto simp: team_change_handler_unregister_def find_change_handler_def find_None_iff)
  qed
qed

theorem register_unregister_contract_witness:
  "find_change_handler th_two H_p \<noteq> None \<and>
   team_change_handler_register th_two True H_p = (- EEXIST, th_two) \<and>
   find_change_handler th_two H_o = None \<and>
   team_change_handler_register th_two False H_o = (- ENOMEM, th_two) \<and>
   team_change_handler_register th_two True H_o =
     (0, th_two\<lparr>change_handler_list :=
            \<lparr>call_this = False, handler = H_o\<rparr> # change_handler_list th_two\<rparr>) \<and>
   team_change_handler_unregister th_two H_o = th_two \<and>
   reachable th_two \<and>
   find_change_handler (team_change_handler_unregister th_two H_p) H_p = None"
proof -
  have a: "find_change_handler th_two H_p \<noteq> None"
    by (simp add: th_two_eq find_change_handler_def fixture_defs)
  have b: "find_change_handler th_two H_o = None"
    by (simp add: th_two_eq find_change_handler_def fixture_defs)
  note r = reachable_th_two
  from a b r
    register_unregister_contract[of th_two H_p True]
    register_unregister_contract[of th_two H_o False]
    register_unregister_contract[of th_two H_o True]
  show ?thesis by simp
qed

subsection \<open>Mark and fire\<close>

text \<open>
  Claim C1 says that after a refresh of class PORT or OPTION every registered handler of
  that class or of class ALL is pending, and that an ALL handler fires once after port
  list messages. The mark step compares the class of the refresh, never ALL, with
  \<^verbatim>\<open>TEAM_ALL_CHANGE\<close>, and the handler's class with the class of the refresh: a
  registration of class ALL is left exactly as it was by both decoders, and the
  concrete run below fires the PORT handler once and the ALL handler not at all.
\<close>

theorem refresh_leaves_all_class_handlers_unmarked:
  assumes "hi \<in> set (change_handler_list th)"
    and "handler_type (handler hi) = TEAM_ALL_CHANGE"
  shows "mark_item TEAM_PORT_CHANGE hi = hi \<and> mark_item TEAM_OPTION_CHANGE hi = hi \<and>
         hi \<in> set (change_handler_list (get_port_list_handler th env msg)) \<and>
         (\<forall>th'. get_options_handler th env msg = Inr th' \<longrightarrow>
                 hi \<in> set (change_handler_list th'))"
proof -
  have m: "mark_item TEAM_PORT_CHANGE hi = hi" "mark_item TEAM_OPTION_CHANGE hi = hi"
    using assms(2) by (simp_all add: mark_item_def)
  have s: "hi \<in> set (change_handler_list (set_call_change_handlers t c))"
    if "hi \<in> set (change_handler_list t)" "c = TEAM_PORT_CHANGE \<or> c = TEAM_OPTION_CHANGE" for t c
  proof -
    from that(2) m have "mark_item c hi = hi" by auto
    with that(1) have "hi \<in> mark_item c ` set (change_handler_list t)" by force
    then show ?thesis by (simp add: set_call_change_handlers_def)
  qed
  have p: "hi \<in> set (change_handler_list (get_port_list_handler th env msg))"
    using assms(1) s[of "th\<lparr>port_list := pl\<rparr>" TEAM_PORT_CHANGE for pl]
    by (simp add: get_port_list_handler_eq Let_def split: option.splits)
  have o: "hi \<in> set (change_handler_list th')" if "get_options_handler th env msg = Inr th'" for th'
    using that assms(1) s[of "th\<lparr>option_list := ol\<rparr>" TEAM_OPTION_CHANGE for ol]
    by (auto simp: get_options_handler_eq Let_def split: option.splits sum.splits if_splits)
  from m p o show ?thesis by blast
qed

theorem refresh_leaves_all_class_handlers_unmarked_witness:
  "\<lparr>call_this = False, handler = H_a\<rparr> \<in> set (change_handler_list th_S1) \<and>
   handler_type H_a = TEAM_ALL_CHANGE \<and>
   port_list (get_port_list_handler th_S1 env_ok (port_list_msg 7 S5_ports)) = port_list th_S5 \<and>
   \<lparr>call_this = False, handler = H_a\<rparr> \<in>
     set (change_handler_list (get_port_list_handler th_S1 env_ok (port_list_msg 7 S5_ports))) \<and>
   team_process_event th_S1
     [(env_ok, port_list_msg 7 S1_ports), (env_ok, port_list_msg 7 S5_ports)] =
     Inr (th_S5, [H_p])"
proof -
  have a: "\<lparr>call_this = False, handler = H_a\<rparr> \<in> set (change_handler_list th_S1)"
    by (simp add: th_S1_def)
  have b: "handler_type (handler \<lparr>call_this = False, handler = H_a\<rparr>) = TEAM_ALL_CHANGE"
    by (simp add: H_a_def)
  have c: "port_list (get_port_list_handler th_S1 env_ok (port_list_msg 7 S5_ports)) = port_list th_S5"
    by (simp add: th_S1_def run_defs fixture_defs S5_ports_loop)
  from refresh_leaves_all_class_handlers_unmarked[OF a b, of env_ok "port_list_msg 7 S5_ports"]
    a b c S5_run
  show ?thesis by simp
qed

text \<open>
  Claim C2. In one \<^verbatim>\<open>team_process_event\<close>, on a handle the exported operations can
  produce, every handler is invoked at most once whatever the messages drained; after
  the sweep no registration is pending, and every registration that was pending when
  the sweep began has been invoked exactly once. Callbacks are taken not to change the
  registry while the sweep runs.
\<close>

theorem process_event_fires_each_handler_at_most_once:
  assumes r: "reachable th"
    and p: "team_process_event th inbound = Inr (th', calls)"
  shows "count_list calls h \<le> 1 \<and>
         (\<forall>hi\<in>set (change_handler_list th'). \<not> call_this hi) \<and>
         (\<exists>th1. recvmsgs_event th inbound = Inr th1 \<and>
                check_call_change_handlers th1 TEAM_ALL_CHANGE = (th', calls) \<and>
                (\<forall>hi\<in>set (change_handler_list th1).
                    call_this hi \<longrightarrow> count_list calls (handler hi) = 1))"
proof -
  from p obtain th1 where
    d: "recvmsgs_event th inbound = Inr th1"
    and s: "check_call_change_handlers th1 TEAM_ALL_CHANGE = (th', calls)"
    by (auto simp: team_process_event_def split: sum.splits)
  from keeps_inv[OF keeps_recvmsgs_event[OF d] reachable_inv[OF r]]
  have "distinct (map (\<lambda>hi. handler_addr (handler hi)) (change_handler_list th1))"
    by (simp add: handle_inv_def)
  then have "distinct (map handler (change_handler_list th1))" by (rule distinct_handlers)
  then have dc: "distinct (map handler (filter (fires TEAM_ALL_CHANGE) (change_handler_list th1)))"
    by (rule distinct_map_filter)
  have c: "calls = map handler (filter (fires TEAM_ALL_CHANGE) (change_handler_list th1))"
    using s sweep_calls[of th1 TEAM_ALL_CHANGE] by simp
  have 1: "count_list calls h \<le> 1" using count_list_distinct_le[OF dc] by (simp add: c)
  have 2: "\<forall>hi\<in>set (change_handler_list th'). \<not> call_this hi"
    using sweep_clears[OF s] by (simp add: fires_def)
  have 3: "count_list calls (handler hi) = 1"
    if "hi \<in> set (change_handler_list th1)" "call_this hi" for hi
  proof -
    from that have "handler hi \<in> set calls" by (auto simp: c fires_def)
    with count_list_distinct_mem[OF dc] show ?thesis by (simp add: c)
  qed
  have "recvmsgs_event th inbound = Inr th1 \<and>
        check_call_change_handlers th1 TEAM_ALL_CHANGE = (th', calls) \<and>
        (\<forall>hi\<in>set (change_handler_list th1).
            call_this hi \<longrightarrow> count_list calls (handler hi) = 1)"
    using d s 3 by simp
  then have "\<exists>th1. recvmsgs_event th inbound = Inr th1 \<and>
        check_call_change_handlers th1 TEAM_ALL_CHANGE = (th', calls) \<and>
        (\<forall>hi\<in>set (change_handler_list th1).
            call_this hi \<longrightarrow> count_list calls (handler hi) = 1)" ..
  with 1 2 show ?thesis by simp
qed

theorem process_event_fires_each_handler_at_most_once_witness:
  "reachable th_S1 \<and>
   team_process_event th_S1
     [(env_ok, port_list_msg 7 S1_ports), (env_ok, port_list_msg 7 S5_ports)] =
     Inr (th_S5, [H_p]) \<and>
   count_list [H_p] H_p \<le> 1 \<and>
   filter call_this (change_handler_list th_S5) = []"
  using process_event_fires_each_handler_at_most_once[OF reachable_th_S1 S5_run, of H_p]
    reachable_th_S1 S5_run
  by (simp add: th_S5_def th_S1_def)

text \<open>
  Claim C7 says handlers fire in registration order. \<^verbatim>\<open>list_add\<close> puts a new
  registration at the head of the list and the sweep walks from the head: registered
  \<open>H_p\<close> first and \<open>H_q\<close> second, the sweep calls \<open>H_q\<close> first.
\<close>

theorem fire_order_counterexample:
  "fst (team_change_handler_register th_new True H_p) = 0 \<and>
   fst (team_change_handler_register
          (snd (team_change_handler_register th_new True H_p)) True H_q) = 0 \<and>
   snd (check_call_change_handlers (set_call_change_handlers th_pq TEAM_PORT_CHANGE)
          TEAM_PORT_CHANGE) = [H_q, H_p]"
  by (simp add: th_pq_def run_defs fixture_defs H_q_def)

text \<open>
  Claim C7 as amended. On a handle the exported operations can produce, the sweep
  invokes handlers in the order of the registration list, newest registration first:
  if \<open>B\<close> was registered while \<open>A\<close> was registered, neither of the two has been
  unregistered since (other handlers may have been registered and unregistered, and any
  other operation may have run), and both registrations are pending with a matching
  class, then \<open>B\<close> is invoked before \<open>A\<close>.
\<close>

theorem fire_order_reverse_of_registration:
  assumes inv: "reachable th"
    and regA: "find_change_handler th A \<noteq> None"
    and regB: "team_change_handler_register th okB B = (0, thB)"
    and since: "registered_since {handler_addr A, handler_addr B} thB th2"
    and pendA: "\<lparr>call_this = True, handler = A\<rparr> \<in> set (change_handler_list th2)"
    and matchA: "ty = TEAM_ALL_CHANGE \<or> handler_type A = ty"
    and pendB: "\<lparr>call_this = True, handler = B\<rparr> \<in> set (change_handler_list th2)"
    and matchB: "ty = TEAM_ALL_CHANGE \<or> handler_type B = ty"
  shows "\<exists>pre mid post. snd (check_call_change_handlers th2 ty) = pre @ B # mid @ A # post \<and>
           A \<notin> set pre"
proof -
  let ?key = "\<lambda>hi. handler_addr (handler hi)"
  let ?K = "{handler_addr A, handler_addr B}"
  let ?inK = "\<lambda>hi. ?key hi \<in> ?K"
  let ?b = "\<lparr>call_this = False, handler = B\<rparr>"
  from register_ok_list[OF regB] have
    lB: "change_handler_list thB = ?b # change_handler_list th"
    and freshB: "\<forall>x\<in>set (change_handler_list th). ?key x \<noteq> handler_addr B"
    by simp_all
  from regA obtain a0 where a0: "a0 \<in> set (change_handler_list th)" "?key a0 = handler_addr A"
    by (auto simp: find_change_handler_def find_None_iff)
  with freshB have ne: "handler_addr A \<noteq> handler_addr B" by auto
  from reachable_inv[OF inv] have dist: "distinct (map ?key (change_handler_list th))"
    by (simp add: handle_inv_def)
  have "filter ?inK (change_handler_list th) =
        filter (\<lambda>y. ?key y = ?key a0) (change_handler_list th)"
    using freshB a0(2) by (intro filter_cong) auto
  also have "\<dots> = [a0]" using dist a0(1) by (rule filter_key_single)
  finally have pth: "filter ?inK (change_handler_list th) = [a0]" .
  with lB have pB: "filter ?inK (change_handler_list thB) = [?b, a0]" by simp
  have sub: "?K \<subseteq> ?key ` set (change_handler_list thB)"
    using lB a0 by force
  from registered_since_projection[OF since sub] pB
  have "map handler (filter ?inK (change_handler_list th2)) = [B, handler a0]" by simp
  then obtain b a where f2: "filter ?inK (change_handler_list th2) = [b, a]"
    and hb: "handler b = B" and ha: "handler a = handler a0"
    by (auto simp: map_eq_Cons_conv)
  from f2 obtain l2 l1 l0 where
    split: "change_handler_list th2 = l2 @ b # l1 @ a # l0"
    and out: "\<forall>x\<in>set l2. \<not> ?inK x" "\<forall>x\<in>set l1. \<not> ?inK x" "\<forall>x\<in>set l0. \<not> ?inK x"
    by (rule filter_eq_two)
  have ka: "?key a = handler_addr A" using ha a0(2) by simp
  have kb: "?key b = handler_addr B" using hb by simp
  have "\<lparr>call_this = True, handler = B\<rparr> = b"
    using pendB split out ka ne by auto
  then have fb: "fires ty b" using matchB by (auto simp: fires_def)
  have ea: "\<lparr>call_this = True, handler = A\<rparr> = a"
    using pendA split out kb ne by auto
  then have fa: "fires ty a" using matchA by (auto simp: fires_def)
  from ea have hA: "handler a = A" by auto
  have notA: "A \<notin> set (map handler (filter (fires ty) l2))"
    using out(1) by auto
  from split fb fa hb hA have
    "snd (check_call_change_handlers th2 ty) =
       map handler (filter (fires ty) l2) @ B # map handler (filter (fires ty) l1) @
         A # map handler (filter (fires ty) l0)"
    by (simp add: sweep_calls)
  with notA show ?thesis by blast
qed

theorem fire_order_reverse_of_registration_witness:
  "reachable th_pc \<and> find_change_handler th_pc H_p \<noteq> None \<and>
   team_change_handler_register th_pc True H_q = (0, th_pcq) \<and>
   snd (check_call_change_handlers
          (set_call_change_handlers (team_change_handler_unregister th_pcq H_c) TEAM_PORT_CHANGE)
          TEAM_PORT_CHANGE) = [H_q, H_p] \<and>
   (\<exists>pre mid post.
      snd (check_call_change_handlers
             (set_call_change_handlers (team_change_handler_unregister th_pcq H_c) TEAM_PORT_CHANGE)
             TEAM_PORT_CHANGE) = pre @ H_q # mid @ H_p # post \<and> H_p \<notin> set pre)"
proof -
  let ?K = "{handler_addr H_p, handler_addr H_q}"
  let ?th1 = "team_change_handler_unregister th_pcq H_c"
  let ?th2 = "set_call_change_handlers ?th1 TEAM_PORT_CHANGE"
  note defs = th_pc_def th_pcq_def run_defs fixture_defs H_q_def H_c_def
  have regA: "find_change_handler th_pc H_p \<noteq> None" by (simp add: defs)
  have regB: "team_change_handler_register th_pc True H_q = (0, th_pcq)" by (simp add: defs)
  have "handler_addr H_c \<notin> ?K" by (simp add: H_c_def H_p_def H_q_def)
  from s_unregister[OF s_start this] have "registered_since ?K th_pcq ?th1" .
  then have since: "registered_since ?K th_pcq ?th2"
    by (rule s_same) (simp add: same_registrations_def)
  have pendA: "\<lparr>call_this = True, handler = H_p\<rparr> \<in> set (change_handler_list ?th2)"
    by (simp add: defs)
  have pendB: "\<lparr>call_this = True, handler = H_q\<rparr> \<in> set (change_handler_list ?th2)"
    by (simp add: defs)
  have matchA: "TEAM_PORT_CHANGE = TEAM_ALL_CHANGE \<or> handler_type H_p = TEAM_PORT_CHANGE"
    by (simp add: H_p_def)
  have matchB: "TEAM_PORT_CHANGE = TEAM_ALL_CHANGE \<or> handler_type H_q = TEAM_PORT_CHANGE"
    by (simp add: H_q_def)
  have run: "snd (check_call_change_handlers ?th2 TEAM_PORT_CHANGE) = [H_q, H_p]"
    by (simp add: defs)
  from fire_order_reverse_of_registration
         [OF reachable_th_pc regA regB since pendA matchA pendB matchB]
    reachable_th_pc regA regB run
  show ?thesis by simp
qed

subsection \<open>The decoders\<close>

text \<open>
  Claim C3 says that every decoder anomaly skips the offending element only and never
  ends a refresh. An element without a required attribute ends it: the port list
  message below holds a well-formed port and a port without ifindex, the options
  message two options and an option without data, and both leave the handle as it was.
\<close>

theorem decoder_anomaly_counterexample:
  "get_port_list_handler th_S1 env_ok (port_list_msg 7 (S5_ports @ [port_without_ifindex])) = th_S1 \<and>
   port_list th_S1 \<noteq> port_list th_S5 \<and>
   get_options_handler th_S1 env_ok (options_msg 7 (S3_options @ [option_without_data])) = Inr th_S1 \<and>
   option_list th_S1 \<noteq> option_list th_S3"
  by (simp add: th_S1_def th_S5_def th_S3_def run_defs fixture_defs S5_ports_def S3_options_def
       port_entry_def option_entry_def port_without_ifindex_def option_without_data_def
       new_port_def option_loop_step has_required_def entry_name_def entry_option_def
       find_option_def NLA_STRING_def NLA_U32_def)

text \<open>
  Claim C3 as amended. A message for another team ifindex is skipped whole. A port
  list message in which some element fails to parse, lacks the port ifindex or gets no
  memory for its record leaves the handle as it was; otherwise the port records of all
  its elements replace the cached list and the PORT handlers are marked. An options
  message, whenever its decoder returns, leaves the handle as it was if some element
  fails to parse or lacks one of name, type and data; otherwise the cached list is
  replaced by the options of its elements, in order, without the elements whose name is
  already in the list being built and without those whose netlink type is neither U32
  nor STRING, and the OPTION handlers are marked. The options decoder returns whenever
  its allocations succeed.
\<close>

theorem decoder_anomalies:
  "(\<forall>a. TEAM_ATTR_TEAM_IFINDEX msg = Some a \<and> nla_get_u32 a \<noteq> ifindex th \<longrightarrow>
        get_port_list_handler th env msg = th \<and> get_options_handler th env msg = Inr th) \<and>
   (\<forall>a es. TEAM_ATTR_TEAM_IFINDEX msg = Some a \<and> nla_get_u32 a = ifindex th \<and>
        TEAM_ATTR_LIST_PORT msg = Some es \<longrightarrow>
        get_port_list_handler th env msg =
          (if \<exists>j<length es. port_entry_aborts (malloc_ok env) j (es ! j) then th
           else set_call_change_handlers (th\<lparr>port_list := accepted_ports es\<rparr>)
                  TEAM_PORT_CHANGE)) \<and>
   (\<forall>a es th'. TEAM_ATTR_TEAM_IFINDEX msg = Some a \<and> nla_get_u32 a = ifindex th \<and>
        TEAM_ATTR_LIST_OPTION msg = Some es \<and> get_options_handler th env msg = Inr th' \<longrightarrow>
        th' =
          (if \<exists>j<length es. option_entry_aborts (es ! j) then th
           else set_call_change_handlers (th\<lparr>option_list := accepted_options es []\<rparr>)
                  TEAM_OPTION_CHANGE)) \<and>
   (\<forall>a es. TEAM_ATTR_TEAM_IFINDEX msg = Some a \<and> nla_get_u32 a = ifindex th \<and>
        TEAM_ATTR_LIST_OPTION msg = Some es \<and> (\<forall>j<length es. malloc_ok env j) \<longrightarrow>
        (\<exists>th'. get_options_handler th env msg = Inr th'))"
proof -
  have 1: "\<forall>a. TEAM_ATTR_TEAM_IFINDEX msg = Some a \<and> nla_get_u32 a \<noteq> ifindex th \<longrightarrow>
        get_port_list_handler th env msg = th \<and> get_options_handler th env msg = Inr th"
    by (simp add: get_port_list_handler_eq get_options_handler_eq)
  have 2: "\<forall>a es. TEAM_ATTR_TEAM_IFINDEX msg = Some a \<and> nla_get_u32 a = ifindex th \<and>
        TEAM_ATTR_LIST_PORT msg = Some es \<longrightarrow>
        get_port_list_handler th env msg =
          (if \<exists>j<length es. port_entry_aborts (malloc_ok env) j (es ! j) then th
           else set_call_change_handlers (th\<lparr>port_list := accepted_ports es\<rparr>)
                  TEAM_PORT_CHANGE)"
    by (auto simp: get_port_list_handler_eq port_loop_result)
  have 3: "\<forall>a es th'. TEAM_ATTR_TEAM_IFINDEX msg = Some a \<and> nla_get_u32 a = ifindex th \<and>
        TEAM_ATTR_LIST_OPTION msg = Some es \<and> get_options_handler th env msg = Inr th' \<longrightarrow>
        th' =
          (if \<exists>j<length es. option_entry_aborts (es ! j) then th
           else set_call_change_handlers (th\<lparr>option_list := accepted_options es []\<rparr>)
                  TEAM_OPTION_CHANGE)"
  proof (intro allI impI)
    fix a es th'
    assume h: "TEAM_ATTR_TEAM_IFINDEX msg = Some a \<and> nla_get_u32 a = ifindex th \<and>
        TEAM_ATTR_LIST_OPTION msg = Some es \<and> get_options_handler th env msg = Inr th'"
    then obtain r where r: "option_loop (malloc_ok env) 0 es [] = Inr r"
      and t: "th' = (case r of None \<Rightarrow> th
                | Some tmp \<Rightarrow> set_call_change_handlers (th\<lparr>option_list := tmp\<rparr>)
                    TEAM_OPTION_CHANGE)"
      by (auto simp: get_options_handler_eq split: sum.splits option.splits)
    from option_loop_result[OF r] t
    show "th' =
          (if \<exists>j<length es. option_entry_aborts (es ! j) then th
           else set_call_change_handlers (th\<lparr>option_list := accepted_options es []\<rparr>)
                  TEAM_OPTION_CHANGE)"
      by auto
  qed
  have 4: "\<forall>a es. TEAM_ATTR_TEAM_IFINDEX msg = Some a \<and> nla_get_u32 a = ifindex th \<and>
        TEAM_ATTR_LIST_OPTION msg = Some es \<and> (\<forall>j<length es. malloc_ok env j) \<longrightarrow>
        (\<exists>th'. get_options_handler th env msg = Inr th')"
  proof (intro allI impI)
    fix a es
    assume h: "TEAM_ATTR_TEAM_IFINDEX msg = Some a \<and> nla_get_u32 a = ifindex th \<and>
        TEAM_ATTR_LIST_OPTION msg = Some es \<and> (\<forall>j<length es. malloc_ok env j)"
    then have "\<forall>j<length es. malloc_ok env (0 + j)" by simp
    from option_loop_returns[OF this] obtain r where
      "option_loop (malloc_ok env) 0 es [] = Inr r" by blast
    with h show "\<exists>th'. get_options_handler th env msg = Inr th'"
      by (simp add: get_options_handler_eq split: option.splits)
  qed
  show ?thesis
    apply (rule conjI[OF 1])
    apply (rule conjI[OF 2])
    apply (rule conjI[OF 3])
    apply (rule 4)
    done
qed

theorem decoder_anomalies_witness:
  "get_port_list_handler th_S1 env_ok (port_list_msg 99 S5_ports) = th_S1 \<and>
   get_port_list_handler th_S1 env_ok (port_list_msg 7 (S5_ports @ [port_without_ifindex])) = th_S1 \<and>
   port_list (get_port_list_handler th_S1 env_ok (port_list_msg 7 S5_ports)) = port_list th_S5 \<and>
   get_options_handler th_S1 env_ok (options_msg 7 (S3_options @ [option_without_data])) = Inr th_S1 \<and>
   get_options_handler th_S1 env_ok (options_msg 7 S3_options) = Inr th_S3"
proof -
  let ?pbad = "S5_ports @ [port_without_ifindex]"
  let ?obad = "S3_options @ [option_without_data]"
  note attr = port_list_msg_def options_msg_def nla_of_u32_def th_S1_def env_ok_def
  have 1: "get_port_list_handler th_S1 env_ok (port_list_msg 99 S5_ports) = th_S1"
    using decoder_anomalies[of "port_list_msg 99 S5_ports" th_S1 env_ok]
    by (simp add: attr)
  have pb: "\<exists>j<length ?pbad. port_entry_aborts (malloc_ok env_ok) j (?pbad ! j)"
    by (rule exI[of _ 1]) (simp add: S5_ports_def port_without_ifindex_def port_entry_aborts_def)
  have 2: "get_port_list_handler th_S1 env_ok (port_list_msg 7 ?pbad) = th_S1"
    using decoder_anomalies[of "port_list_msg 7 ?pbad" th_S1 env_ok] pb
    by (simp add: attr)
  have pg: "\<not> (\<exists>j<length S5_ports. port_entry_aborts (malloc_ok env_ok) j (S5_ports ! j))"
    by (simp add: S5_ports_def port_entry_def port_entry_aborts_def env_ok_def)
  have 3: "port_list (get_port_list_handler th_S1 env_ok (port_list_msg 7 S5_ports)) =
           port_list th_S5"
    using decoder_anomalies[of "port_list_msg 7 S5_ports" th_S1 env_ok] pg
    by (simp add: attr)
       (simp add: th_S5_def th_S1_def accepted_ports_def S5_ports_def port_entry_def new_port_def
          set_call_change_handlers_def mark_item_def fixture_defs)
  have ob: "\<exists>j<length ?obad. option_entry_aborts (?obad ! j)"
    by (rule exI[of _ 2])
       (simp add: S3_options_def option_without_data_def option_entry_aborts_def has_required_def)
  have "\<exists>th'. get_options_handler th_S1 env_ok (options_msg 7 ?obad) = Inr th'"
    using decoder_anomalies[of "options_msg 7 ?obad" th_S1 env_ok]
    by (simp add: attr)
  then obtain th' where r: "get_options_handler th_S1 env_ok (options_msg 7 ?obad) = Inr th'" ..
  with decoder_anomalies[of "options_msg 7 ?obad" th_S1 env_ok] ob
  have "th' = th_S1" by (simp add: attr)
  with r have 4: "get_options_handler th_S1 env_ok (options_msg 7 ?obad) = Inr th_S1" by simp
  have og: "\<not> (\<exists>j<length S3_options. option_entry_aborts (S3_options ! j))"
    unfolding ex_nth_set
    by (simp add: S3_options_eq oa_mode1_def oa_mode2_def option_entry_aborts_def
          has_required_def)
  have acc: "accepted_options S3_options [] = option_list th_S3"
    by (simp add: S3_options_eq oa_mode1_def oa_mode2_def duplicate_name_def unknown_type_def
          option_eval th_S3_def fixture_defs)
  have "\<exists>th'. get_options_handler th_S1 env_ok (options_msg 7 S3_options) = Inr th'"
    using decoder_anomalies[of "options_msg 7 S3_options" th_S1 env_ok]
    by (simp add: attr)
  then obtain th'' where r': "get_options_handler th_S1 env_ok (options_msg 7 S3_options) = Inr th''" ..
  with decoder_anomalies[of "options_msg 7 S3_options" th_S1 env_ok] og acc
  have "th'' = set_call_change_handlers (th_S1\<lparr>option_list := option_list th_S3\<rparr>) TEAM_OPTION_CHANGE"
    by (simp add: attr)
  then have "th'' = th_S3"
    by (simp add: th_S3_def th_S1_def set_call_change_handlers_def mark_item_def fixture_defs)
  with r' have 5: "get_options_handler th_S1 env_ok (options_msg 7 S3_options) = Inr th_S3" by simp
  from 1 2 3 4 5 show ?thesis by simp
qed

text \<open>
  Claim C4. A port list or option list message whose team ifindex attribute differs from
  the handle's ifindex changes nothing: both decoders and the event callback return the
  handle as it was, \<^verbatim>\<open>team_process_event\<close> on it does what it does on no message at
  all, and when no registration is pending no handler fires.
\<close>

theorem cross_ifindex_message_is_skipped:
  assumes "TEAM_ATTR_TEAM_IFINDEX msg = Some a" and "nla_get_u32 a \<noteq> ifindex th"
  shows "get_port_list_handler th env msg = th \<and>
         get_options_handler th env msg = Inr th \<and>
         event_handler th env msg = Inr th \<and>
         team_process_event th [(env, msg)] = team_process_event th [] \<and>
         ((\<forall>hi\<in>set (change_handler_list th). \<not> call_this hi) \<longrightarrow>
            team_process_event th [(env, msg)] = Inr (th, []))"
proof -
  have p: "get_port_list_handler th env msg = th"
    using assms by (simp add: get_port_list_handler_eq)
  have o: "get_options_handler th env msg = Inr th"
    using assms by (simp add: get_options_handler_eq)
  have e: "event_handler th env msg = Inr th"
    using p o by (simp add: event_handler_def split: team_cmd.splits)
  have c: "call_valid_cb cb th env msg = Inr th" for cb
    using p o e by (simp add: call_valid_cb_def split: valid_cb.splits)
  have d: "team_process_event th [(env, msg)] = team_process_event th []"
    using c by (simp add: team_process_event_def)
  have "team_process_event th [(env, msg)] = Inr (th, [])"
    if "\<forall>hi\<in>set (change_handler_list th). \<not> call_this hi"
    using d sweep_nothing_pending[OF that] by (simp add: team_process_event_def)
  with p o e d show ?thesis by blast
qed

theorem cross_ifindex_message_is_skipped_witness:
  "TEAM_ATTR_TEAM_IFINDEX (port_list_msg 99 S5_ports) = Some (nla_of_u32 99) \<and>
   nla_get_u32 (nla_of_u32 99) \<noteq> ifindex th_S1 \<and>
   filter call_this (change_handler_list th_S1) = [] \<and>
   get_port_list_handler th_S1 env_ok (port_list_msg 99 S5_ports) = th_S1 \<and>
   team_process_event th_S1 [(env_ok, port_list_msg 99 S5_ports)] = Inr (th_S1, [])"
proof -
  have a: "TEAM_ATTR_TEAM_IFINDEX (port_list_msg 99 S5_ports) = Some (nla_of_u32 99)"
    by (simp add: port_list_msg_def)
  have b: "nla_get_u32 (nla_of_u32 99) \<noteq> ifindex th_S1"
    by (simp add: nla_of_u32_def th_S1_def)
  have c: "\<forall>hi\<in>set (change_handler_list th_S1). \<not> call_this hi"
    by (simp add: th_S1_def)
  have c': "filter call_this (change_handler_list th_S1) = []"
    by (simp add: th_S1_def)
  from cross_ifindex_message_is_skipped[OF a b, of env_ok] a b c c'
  show ?thesis by blast
qed

text \<open>
  Claim C5 says that of two elements with the same name the first is kept and the second
  dropped. An element of unknown netlink type is skipped without its name being entered
  in the list: in the message below the first element named \<open>mode\<close> has netlink type 1
  and the second is a string, and the refreshed list holds the second.
\<close>

theorem first_option_kept_counterexample:
  "get_options_handler th_S1 env_ok (options_msg 7 S3u_options) = Inr th_S3u \<and>
   team_get_option_by_name th_S3u ''mode'' =
     Some \<lparr>opt_type = TEAM_OPTION_TYPE_STRING, opt_changed = False, name = ''mode'',
           data = DataString ''activebackup''\<rparr>"
  by (simp add: get_options_handler_eq options_msg_def nla_of_u32_def env_ok_def S3u_options_def
        oa_mode_u_def oa_mode2_def option_eval th_S1_def th_S3u_def team_get_option_by_name_def
        set_call_change_handlers_def mark_item_def nla_of_string_def nla_of_u8_def
        H_a_def H_p_def)

text \<open>
  Claim C5 as amended. On every handle the exported operations can produce, the cached
  options have pairwise different names, and the option decoder keeps it so. On a
  refresh whose decoder reaches the end of the message, of the elements with one name
  the first whose netlink type is U32 or STRING is kept and every other element of that
  name is dropped, so that the refreshed list holds that name once; elements of unknown
  netlink type before it do not reserve the name, and a name that only such elements
  carry is not in the refreshed list.
\<close>

theorem option_names_are_unique:
  "(reachable th \<longrightarrow> distinct (map name (option_list th))) \<and>
   (\<forall>th'. distinct (map name (option_list th)) \<and> get_options_handler th env msg = Inr th' \<longrightarrow>
          distinct (map name (option_list th'))) \<and>
   (\<forall>a pre oa1 mid oa2 post tmp' opt1.
      TEAM_ATTR_TEAM_IFINDEX msg = Some a \<and> nla_get_u32 a = ifindex th \<and>
      TEAM_ATTR_LIST_OPTION msg = Some (pre @ Parsed oa1 # mid @ Parsed oa2 # post) \<and>
      option_loop (malloc_ok env) 0 (pre @ Parsed oa1 # mid @ Parsed oa2 # post) [] =
        Inr (Some tmp') \<and>
      (\<forall>oa. Parsed oa \<in> set pre \<and> entry_name oa = entry_name oa1 \<longrightarrow>
            entry_option oa = None) \<and>
      entry_option oa1 = Some opt1 \<and>
      has_required oa2 \<and> entry_name oa2 = entry_name oa1 \<longrightarrow>
      (\<exists>th'. get_options_handler th env msg = Inr th' \<and> option_list th' = tmp' \<and>
             team_get_option_by_name th' (entry_name oa1) = Some opt1 \<and>
             length (filter (\<lambda>option. name option = entry_name oa1) (option_list th')) = 1)) \<and>
   (\<forall>a es tmp' nm.
      TEAM_ATTR_TEAM_IFINDEX msg = Some a \<and> nla_get_u32 a = ifindex th \<and>
      TEAM_ATTR_LIST_OPTION msg = Some es \<and>
      option_loop (malloc_ok env) 0 es [] = Inr (Some tmp') \<and>
      (\<forall>oa. Parsed oa \<in> set es \<and> entry_name oa = nm \<longrightarrow> entry_option oa = None) \<longrightarrow>
      (\<exists>th'. get_options_handler th env msg = Inr th' \<and> option_list th' = tmp' \<and>
             team_get_option_by_name th' nm = None))"
proof -
  have 1: "reachable th \<longrightarrow> distinct (map name (option_list th))"
    using reachable_inv[of th] by (simp add: handle_inv_def)
  have 2: "\<forall>th'. distinct (map name (option_list th)) \<and> get_options_handler th env msg = Inr th' \<longrightarrow>
          distinct (map name (option_list th'))"
    using keeps_options_handler[of th env msg] by (auto simp: keeps_def)
  have 3: "\<exists>th'. get_options_handler th env msg = Inr th' \<and> option_list th' = tmp' \<and>
             team_get_option_by_name th' (entry_name oa1) = Some opt1 \<and>
             length (filter (\<lambda>option. name option = entry_name oa1) (option_list th')) = 1"
    if h: "TEAM_ATTR_TEAM_IFINDEX msg = Some a \<and> nla_get_u32 a = ifindex th \<and>
      TEAM_ATTR_LIST_OPTION msg = Some (pre @ Parsed oa1 # mid @ Parsed oa2 # post) \<and>
      option_loop (malloc_ok env) 0 (pre @ Parsed oa1 # mid @ Parsed oa2 # post) [] =
        Inr (Some tmp') \<and>
      (\<forall>oa. Parsed oa \<in> set pre \<and> entry_name oa = entry_name oa1 \<longrightarrow>
            entry_option oa = None) \<and>
      entry_option oa1 = Some opt1 \<and>
      has_required oa2 \<and> entry_name oa2 = entry_name oa1"
    for a pre oa1 mid oa2 post tmp' opt1
  proof -
    let ?th' = "set_call_change_handlers (th\<lparr>option_list := tmp'\<rparr>) TEAM_OPTION_CHANGE"
    from h have g: "get_options_handler th env msg = Inr ?th'"
      by (simp add: get_options_handler_eq)
    have o: "option_list ?th' = tmp'" by (simp add: set_call_change_handlers_def)
    from h first_decoded_entry_wins[of "malloc_ok env" 0 pre oa1 "mid @ Parsed oa2 # post" tmp' opt1]
    have "find_option tmp' (entry_name oa1) = Some opt1 \<and>
          length (filter (\<lambda>option. name option = entry_name oa1) tmp') = 1"
      by blast
    with g o show ?thesis by (simp add: team_get_option_by_name_def)
  qed
  have 4: "\<exists>th'. get_options_handler th env msg = Inr th' \<and> option_list th' = tmp' \<and>
             team_get_option_by_name th' nm = None"
    if h: "TEAM_ATTR_TEAM_IFINDEX msg = Some a \<and> nla_get_u32 a = ifindex th \<and>
      TEAM_ATTR_LIST_OPTION msg = Some es \<and>
      option_loop (malloc_ok env) 0 es [] = Inr (Some tmp') \<and>
      (\<forall>oa. Parsed oa \<in> set es \<and> entry_name oa = nm \<longrightarrow> entry_option oa = None)"
    for a es tmp' nm
  proof -
    let ?th' = "set_call_change_handlers (th\<lparr>option_list := tmp'\<rparr>) TEAM_OPTION_CHANGE"
    from h have g: "get_options_handler th env msg = Inr ?th'"
      by (simp add: get_options_handler_eq)
    have o: "option_list ?th' = tmp'" by (simp add: set_call_change_handlers_def)
    from h have l: "option_loop (malloc_ok env) 0 es [] = Inr (Some tmp')" by simp
    have "nm \<notin> name ` set tmp'"
    proof
      assume "nm \<in> name ` set tmp'"
      then obtain opt where "opt \<in> set tmp'" "name opt = nm" by auto
      from option_loop_names_decoded[OF l this(1)] this(2) h show False by auto
    qed
    then have "find_option tmp' nm = None" by (simp add: find_option_None_iff)
    with g o show ?thesis by (simp add: team_get_option_by_name_def)
  qed
  show ?thesis
    apply (rule conjI[OF 1])
    apply (rule conjI[OF 2])
    apply (rule conjI)
     apply (intro allI impI)
     apply (erule 3)
    apply (intro allI impI)
    apply (erule 4)
    done
qed

theorem option_names_are_unique_witness:
  "reachable th_S1 \<and> distinct (map name (option_list th_S1)) \<and>
   get_options_handler th_S1 env_ok (options_msg 7 S3w_options) = Inr th_S3 \<and>
   option_list th_S3 =
     [\<lparr>opt_type = TEAM_OPTION_TYPE_STRING, opt_changed = False, name = ''mode'',
       data = DataString ''roundrobin''\<rparr>] \<and>
   team_get_option_by_name th_S3 ''mode'' =
     Some \<lparr>opt_type = TEAM_OPTION_TYPE_STRING, opt_changed = False, name = ''mode'',
           data = DataString ''roundrobin''\<rparr> \<and>
   length (filter (\<lambda>option. name option = ''mode'') (option_list th_S3)) = 1 \<and>
   team_get_option_by_name th_S3 ''activeport'' = None"
proof -
  let ?msg = "options_msg 7 S3w_options"
  let ?opt1 = "\<lparr>opt_type = TEAM_OPTION_TYPE_STRING, opt_changed = False, name = ''mode'',
       data = DataString ''roundrobin''\<rparr>"
  note t = option_names_are_unique[of th_S1 env_ok ?msg]
  have eu: "entry_option oa_mode_u = None"
    by (simp add: oa_mode_u_def entry_option_def nla_of_u32_def NLA_U32_def NLA_STRING_def)
  have h: "TEAM_ATTR_TEAM_IFINDEX ?msg = Some (nla_of_u32 7) \<and>
      nla_get_u32 (nla_of_u32 7) = ifindex th_S1 \<and>
      TEAM_ATTR_LIST_OPTION ?msg =
        Some ([Parsed oa_mode_u] @ Parsed oa_mode1 # [] @ Parsed oa_mode2 # []) \<and>
      option_loop (malloc_ok env_ok) 0
        ([Parsed oa_mode_u] @ Parsed oa_mode1 # [] @ Parsed oa_mode2 # []) [] =
        Inr (Some (option_list th_S3)) \<and>
      (\<forall>oa. Parsed oa \<in> set [Parsed oa_mode_u] \<and> entry_name oa = entry_name oa_mode1 \<longrightarrow>
            entry_option oa = None) \<and>
      entry_option oa_mode1 = Some ?opt1 \<and>
      has_required oa_mode2 \<and> entry_name oa_mode2 = entry_name oa_mode1"
    using S3w_options_loop eu
    by (simp add: options_msg_def nla_of_u32_def th_S1_def S3w_options_def env_ok_def)
       (simp add: oa_mode1_def oa_mode2_def entry_option_def has_required_def entry_name_def
          nla_of_string_def nla_of_u32_def NLA_STRING_def NLA_U32_def)
  have nm: "entry_name oa_mode1 = ''mode''"
    by (simp add: oa_mode1_def entry_name_def nla_of_string_def)
  from t h have "\<exists>th'. get_options_handler th_S1 env_ok ?msg = Inr th' \<and>
      option_list th' = option_list th_S3 \<and>
      team_get_option_by_name th' (entry_name oa_mode1) = Some ?opt1 \<and>
      length (filter (\<lambda>option. name option = entry_name oa_mode1) (option_list th')) = 1"
    by blast
  then have r: "team_get_option_by_name th_S3 ''mode'' = Some ?opt1 \<and>
      length (filter (\<lambda>option. name option = ''mode'') (option_list th_S3)) = 1"
    using S3w_handler nm by auto
  from t reachable_th_S1 have d: "distinct (map name (option_list th_S1))" by blast
  have l: "option_list th_S3 = [?opt1]" by (simp add: th_S3_def)
  have n: "team_get_option_by_name th_S3 ''activeport'' = None"
    by (simp add: team_get_option_by_name_def find_option_def th_S3_def)
  from reachable_th_S1 d S3w_handler l r n show ?thesis by simp
qed

text \<open>
  Claim C10. When the loop of the port decoder returns early on some element (parse
  failure, missing port ifindex, failed allocation), the handle is exactly as before:
  same port list, no registration marked. Whenever the decoder does change the handle,
  no element made the loop return and the new list has one record per element.
\<close>

theorem port_decoder_abort_keeps_snapshot:
  assumes "TEAM_ATTR_LIST_PORT msg = Some nl_ports"
  shows "((\<exists>j<length nl_ports. port_entry_aborts (malloc_ok env) j (nl_ports ! j)) \<longrightarrow>
            get_port_list_handler th env msg = th) \<and>
         (get_port_list_handler th env msg \<noteq> th \<longrightarrow>
            (\<forall>j<length nl_ports. \<not> port_entry_aborts (malloc_ok env) j (nl_ports ! j)) \<and>
            length (port_list (get_port_list_handler th env msg)) = length nl_ports)"
proof (cases "port_loop (malloc_ok env) 0 nl_ports []")
  case None
  then have "get_port_list_handler th env msg = th"
    using assms by (simp add: get_port_list_handler_eq Let_def)
  then show ?thesis by simp
next
  case (Some tmp)
  then have no: "\<not> (\<exists>j<length nl_ports. port_entry_aborts (malloc_ok env) j (nl_ports ! j))"
    using port_loop_None_iff[of "malloc_ok env" 0 nl_ports "[]"] by simp
  from port_loop_length[OF Some] have len: "length tmp = length nl_ports" by simp
  have "get_port_list_handler th env msg = th \<or>
        get_port_list_handler th env msg =
          set_call_change_handlers (th\<lparr>port_list := tmp\<rparr>) TEAM_PORT_CHANGE"
    using assms Some by (simp add: get_port_list_handler_eq Let_def list_splice_def)
  then have "get_port_list_handler th env msg \<noteq> th \<longrightarrow>
        length (port_list (get_port_list_handler th env msg)) = length nl_ports"
    using len by (auto simp: set_call_change_handlers_def)
  with no show ?thesis by blast
qed

theorem port_decoder_abort_keeps_snapshot_witness:
  "TEAM_ATTR_LIST_PORT (port_list_msg 7 (S5_ports @ [port_without_ifindex])) =
     Some (S5_ports @ [port_without_ifindex]) \<and>
   1 < length (S5_ports @ [port_without_ifindex]) \<and>
   port_entry_aborts (malloc_ok env_ok) 1 ((S5_ports @ [port_without_ifindex]) ! 1) \<and>
   get_port_list_handler th_S1 env_ok (port_list_msg 7 (S5_ports @ [port_without_ifindex])) = th_S1 \<and>
   get_port_list_handler th_S1 env_ok (port_list_msg 7 S5_ports) \<noteq> th_S1 \<and>
   length (port_list (get_port_list_handler th_S1 env_ok (port_list_msg 7 S5_ports))) = length S5_ports"
proof -
  let ?es = "S5_ports @ [port_without_ifindex]"
  have a: "TEAM_ATTR_LIST_PORT (port_list_msg 7 ?es) = Some ?es" by (simp add: port_list_msg_def)
  have b: "1 < length ?es" by (simp add: S5_ports_def)
  have c: "port_entry_aborts (malloc_ok env_ok) 1 (?es ! 1)"
    by (simp add: S5_ports_def port_without_ifindex_def port_entry_aborts_def)
  from b c have d: "\<exists>j<length ?es. port_entry_aborts (malloc_ok env_ok) j (?es ! j)" by blast
  have a': "TEAM_ATTR_LIST_PORT (port_list_msg 7 S5_ports) = Some S5_ports"
    by (simp add: port_list_msg_def)
  have e: "get_port_list_handler th_S1 env_ok (port_list_msg 7 S5_ports) \<noteq> th_S1"
  proof
    assume "get_port_list_handler th_S1 env_ok (port_list_msg 7 S5_ports) = th_S1"
    then have "port_list (get_port_list_handler th_S1 env_ok (port_list_msg 7 S5_ports)) = port_list th_S1"
      by simp
    then show False
      by (simp add: th_S1_def run_defs fixture_defs S5_ports_loop th_S5_def)
  qed
  from port_decoder_abort_keeps_snapshot[OF a, of env_ok th_S1] d
    port_decoder_abort_keeps_snapshot[OF a', of env_ok th_S1] e a b c
  show ?thesis by blast
qed

subsection \<open>Initialisation and the setters\<close>

text \<open>
  Claim C6. \<^verbatim>\<open>team_init\<close> returns \<open>-ENOENT\<close> for ifindex 0; then \<open>-ENOTSUP\<close> when
  one of the two \<^verbatim>\<open>genl_connect\<close> calls fails; then \<open>-ENOENT\<close> when the family or the
  multicast group does not resolve; then \<open>-EINVAL\<close> when the membership cannot be added;
  then \<open>-EINVAL\<close> when the port refresh or the option refresh returns an error; and 0
  when every step succeeds. Each case is the first step that fails.
\<close>

theorem team_init_return_values:
  "(ifx = 0 \<longrightarrow> team_init th env ifx = Inr (- ENOENT, th, [])) \<and>
   (ifx \<noteq> 0 \<and> \<not> sockets_connected env \<longrightarrow>
      team_init th env ifx = Inr (- ENOTSUP, th\<lparr>ifindex := ifx\<rparr>, [])) \<and>
   (ifx \<noteq> 0 \<and> sockets_connected env \<and> \<not> names_resolved env \<longrightarrow>
      team_init th env ifx =
        Inr (- ENOENT, th\<lparr>ifindex := ifx, family := genl_ctrl_resolve env\<rparr>, [])) \<and>
   (ifx \<noteq> 0 \<and> sockets_connected env \<and> names_resolved env \<and> \<not> membership_added env \<longrightarrow>
      team_init th env ifx =
        Inr (- EINVAL, th\<lparr>ifindex := ifx, family := genl_ctrl_resolve env\<rparr>, [])) \<and>
   (ifx \<noteq> 0 \<and> sockets_connected env \<and> names_resolved env \<and> membership_added env \<longrightarrow>
      (\<forall>err th3 calls.
         get_port_list
           (install_callbacks (th\<lparr>ifindex := ifx, family := genl_ctrl_resolve env\<rparr>))
           (port_list_xchg env) = Inr (err, th3, calls) \<and> err \<noteq> 0 \<longrightarrow>
         team_init th env ifx = Inr (- EINVAL, th3, calls)) \<and>
      (\<forall>th3 calls err' th4 calls'.
         get_port_list
           (install_callbacks (th\<lparr>ifindex := ifx, family := genl_ctrl_resolve env\<rparr>))
           (port_list_xchg env) = Inr (0, th3, calls) \<and>
         get_options th3 (options_xchg env) = Inr (err', th4, calls') \<longrightarrow>
         team_init th env ifx =
           Inr (if err' \<noteq> 0 then - EINVAL else 0, th4, calls @ calls')))"
  unfolding team_init_def Let_def sockets_connected_def names_resolved_def membership_added_def
  by (auto simp: not_le)

theorem team_init_return_values_witness:
  "team_init th_two S1_env 0 = Inr (- ENOENT, th_two, []) \<and>
   team_init th_two (S1_env\<lparr>genl_connect_nl_sock_event := - 1\<rparr>) 7 =
     Inr (- ENOTSUP, th_two\<lparr>ifindex := 7\<rparr>, []) \<and>
   team_init th_two (S1_env\<lparr>genl_ctrl_resolve := - 1\<rparr>) 7 =
     Inr (- ENOENT, th_two\<lparr>ifindex := 7, family := - 1\<rparr>, []) \<and>
   team_init th_two (S1_env\<lparr>nl_socket_add_membership := - 1\<rparr>) 7 =
     Inr (- EINVAL, th_two\<lparr>ifindex := 7, family := 23\<rparr>, []) \<and>
   (\<exists>th3. team_init th_two (S1_env\<lparr>port_list_xchg := xchg_of [[Error (- 19)]]\<rparr>) 7 =
     Inr (- EINVAL, th3, [])) \<and>
   (\<exists>th4. team_init th_two (S1_env\<lparr>options_xchg := xchg_of [[Error (- 19)]]\<rparr>) 7 =
     Inr (- EINVAL, th4, [H_p])) \<and>
   team_init th_two S1_env 7 = Inr (0, th_S1, [H_p])"
proof -
  let ?env = "S1_env\<lparr>port_list_xchg := xchg_of [[Error (- 19)]]\<rparr>"
  let ?env' = "S1_env\<lparr>options_xchg := xchg_of [[Error (- 19)]]\<rparr>"
  have ok: "sockets_connected S1_env" "names_resolved S1_env" "membership_added S1_env"
    by (simp_all add: S1_env_def sockets_connected_def names_resolved_def membership_added_def)
  have 1: "team_init th_two S1_env 0 = Inr (- ENOENT, th_two, [])"
    using team_init_return_values[of 0 th_two S1_env] by simp
  have 2: "team_init th_two (S1_env\<lparr>genl_connect_nl_sock_event := - 1\<rparr>) 7 =
     Inr (- ENOTSUP, th_two\<lparr>ifindex := 7\<rparr>, [])"
    using team_init_return_values[of 7 th_two "S1_env\<lparr>genl_connect_nl_sock_event := - 1\<rparr>"]
    by (simp add: sockets_connected_def)
  have 3: "team_init th_two (S1_env\<lparr>genl_ctrl_resolve := - 1\<rparr>) 7 =
     Inr (- ENOENT, th_two\<lparr>ifindex := 7, family := - 1\<rparr>, [])"
    using team_init_return_values[of 7 th_two "S1_env\<lparr>genl_ctrl_resolve := - 1\<rparr>"] ok
    by (simp add: sockets_connected_def names_resolved_def)
  have 4: "team_init th_two (S1_env\<lparr>nl_socket_add_membership := - 1\<rparr>) 7 =
     Inr (- EINVAL, th_two\<lparr>ifindex := 7, family := 23\<rparr>, [])"
    using team_init_return_values[of 7 th_two "S1_env\<lparr>nl_socket_add_membership := - 1\<rparr>"] ok
    by (simp add: sockets_connected_def names_resolved_def membership_added_def)
       (simp add: S1_env_def)
  have ok5: "sockets_connected ?env" "names_resolved ?env" "membership_added ?env"
    using ok by (simp_all add: sockets_connected_def names_resolved_def membership_added_def)
  have "\<exists>th3. get_port_list
           (install_callbacks (th_two\<lparr>ifindex := 7, family := genl_ctrl_resolve ?env\<rparr>))
           (port_list_xchg ?env) = Inr (- 19, th3, [])"
    by (simp add: th_two_eq run_defs fixture_defs)
  then obtain th3 where "get_port_list
           (install_callbacks (th_two\<lparr>ifindex := 7, family := genl_ctrl_resolve ?env\<rparr>))
           (port_list_xchg ?env) = Inr (- 19, th3, [])" ..
  with team_init_return_values[of 7 th_two ?env] ok5
  have "team_init th_two ?env 7 = Inr (- EINVAL, th3, [])" by simp
  then have 5: "\<exists>th3. team_init th_two ?env 7 = Inr (- EINVAL, th3, [])" ..
  have ok6: "sockets_connected ?env'" "names_resolved ?env'" "membership_added ?env'"
    using ok by (simp_all add: sockets_connected_def names_resolved_def membership_added_def)
  have "\<exists>th3 th4. get_port_list
           (install_callbacks (th_two\<lparr>ifindex := 7, family := genl_ctrl_resolve ?env'\<rparr>))
           (port_list_xchg ?env') = Inr (0, th3, [H_p]) \<and>
         get_options th3 (options_xchg ?env') = Inr (- 19, th4, [])"
    by (simp add: S1_env_def th_two_eq run_defs fixture_defs S1_ports_loop)
  then obtain th3 th4 where "get_port_list
           (install_callbacks (th_two\<lparr>ifindex := 7, family := genl_ctrl_resolve ?env'\<rparr>))
           (port_list_xchg ?env') = Inr (0, th3, [H_p]) \<and>
         get_options th3 (options_xchg ?env') = Inr (- 19, th4, [])" by blast
  with team_init_return_values[of 7 th_two ?env'] ok6
  have "team_init th_two ?env' 7 = Inr (- EINVAL, th4, [H_p])" by simp
  then have 6: "\<exists>th4. team_init th_two ?env' 7 = Inr (- EINVAL, th4, [H_p])" ..
  from 1 2 3 4 5 6 S1_init show ?thesis by simp
qed

text \<open>
  Claim C8 says that the option list is the same after every call of a setter.
  \<^verbatim>\<open>set_option_value\<close> hands \<^verbatim>\<open>send_and_recv\<close> no valid-message callback, so the
  callback the last refresh installed on the command socket stays in place: after
  \<^verbatim>\<open>team_init\<close> a data message that arrives there during the exchange is decoded by
  \<^verbatim>\<open>get_options_handler\<close>. In the run below the setter returns 0 and the option
  \<open>activeport\<close> is gone from the cache.
\<close>

theorem setter_changes_cache_counterexample:
  "reachable th_S1 \<and>
   team_set_option_value_by_name_u32 th_S1
     (xchg_of [[Valid env_ok (options_msg 7 S3_options), Ack]]) ''activeport'' 42 =
     Inr (0, th_S3) \<and>
   team_get_option_by_name th_S1 ''activeport'' =
     Some \<lparr>opt_type = TEAM_OPTION_TYPE_U32, opt_changed = False, name = ''activeport'',
           data = DataU32 11\<rparr> \<and>
   team_get_option_by_name th_S3 ''activeport'' = None"
proof -
  have "call_valid_cb CB_get_options_handler (th_S1\<lparr>nl_sock_err := 1\<rparr>) env_ok
          (options_msg 7 S3_options) = Inr (th_S3\<lparr>nl_sock_err := 1\<rparr>)"
    by (simp add: call_valid_cb_def get_options_handler_eq options_msg_def nla_of_u32_def
          env_ok_def S3_options_loop)
       (simp add: th_S3_def th_S1_def set_call_change_handlers_def mark_item_def fixture_defs)
  then have "team_set_option_value_by_name_u32 th_S1
     (xchg_of [[Valid env_ok (options_msg 7 S3_options), Ack]]) ''activeport'' 42 =
     Inr (0, th_S3)"
    by (simp add: team_set_option_value_by_name_u32_def set_option_value_def send_and_recv_def
          xchg_of_def ack_handler_def)
       (simp add: th_S1_def th_S3_def ack_handler_def)
  moreover have "team_get_option_by_name th_S1 ''activeport'' =
     Some \<lparr>opt_type = TEAM_OPTION_TYPE_U32, opt_changed = False, name = ''activeport'',
           data = DataU32 11\<rparr>"
    by (simp add: team_get_option_by_name_def find_option_def th_S1_def)
  moreover have "team_get_option_by_name th_S3 ''activeport'' = None"
    by (simp add: team_get_option_by_name_def find_option_def th_S3_def)
  ultimately show ?thesis using reachable_th_S1 by simp
qed

text \<open>
  Claim C8 as amended. \<^verbatim>\<open>team_set_option_value_by_name_u32\<close> and
  \<^verbatim>\<open>team_set_option_value_by_name_string\<close> send one \<^verbatim>\<open>TEAM_CMD_OPTIONS_SET\<close> request
  with a single option item and return what \<^verbatim>\<open>send_and_recv\<close> returns. For every
  call that returns and during which the command socket delivers no data message (only
  acknowledgements, end markers and errors), the option list, every lookup by name, the
  port list and the registrations are what they were before the call.
\<close>

theorem setters_leave_the_cache_alone:
  assumes "replies_without_data x"
    and "team_set_option_value_by_name_u32 th x nm val = Inr (r, th') \<or>
         team_set_option_value_by_name_string th x nm str = Inr (r, th')"
  shows "option_list th' = option_list th \<and>
         (\<forall>nm'. team_get_option_by_name th' nm' = team_get_option_by_name th nm') \<and>
         port_list th' = port_list th \<and>
         change_handler_list th' = change_handler_list th \<and>
         (nlmsg_alloc_ok x \<and> nla_put_ok x \<longrightarrow>
            team_set_option_value_by_name_u32 th x nm val =
              send_and_recv th x
                \<lparr>req_family = family th, req_cmd = TEAM_CMD_OPTIONS_SET,
                 req_team_ifindex = ifindex th,
                 req_list_option =
                   Some [\<lparr>req_option_name = nm, req_option_type = NLA_U32,
                          req_option_data = DataU32 val\<rparr>]\<rparr> None \<and>
            team_set_option_value_by_name_string th x nm str =
              send_and_recv th x
                \<lparr>req_family = family th, req_cmd = TEAM_CMD_OPTIONS_SET,
                 req_team_ifindex = ifindex th,
                 req_list_option =
                   Some [\<lparr>req_option_name = nm, req_option_type = NLA_STRING,
                          req_option_data = DataString str\<rparr>]\<rparr> None)"
proof -
  from assms(2) obtain d ty where "set_option_value th x nm d ty = Inr (r, th')"
    by (auto simp: team_set_option_value_by_name_u32_def team_set_option_value_by_name_string_def)
  from set_option_value_frame[OF assms(1) this]
  have f: "th' = th\<lparr>nl_sock_err := nl_sock_err th'\<rparr>" .
  have 1: "option_list th' = option_list th" by (subst f) simp
  have 2: "port_list th' = port_list th" by (subst f) simp
  have 3: "change_handler_list th' = change_handler_list th" by (subst f) simp
  have 4: "\<forall>nm'. team_get_option_by_name th' nm' = team_get_option_by_name th nm'"
    using 1 by (simp add: team_get_option_by_name_def)
  have 5: "nlmsg_alloc_ok x \<and> nla_put_ok x \<longrightarrow>
            team_set_option_value_by_name_u32 th x nm val =
              send_and_recv th x
                \<lparr>req_family = family th, req_cmd = TEAM_CMD_OPTIONS_SET,
                 req_team_ifindex = ifindex th,
                 req_list_option =
                   Some [\<lparr>req_option_name = nm, req_option_type = NLA_U32,
                          req_option_data = DataU32 val\<rparr>]\<rparr> None \<and>
            team_set_option_value_by_name_string th x nm str =
              send_and_recv th x
                \<lparr>req_family = family th, req_cmd = TEAM_CMD_OPTIONS_SET,
                 req_team_ifindex = ifindex th,
                 req_list_option =
                   Some [\<lparr>req_option_name = nm, req_option_type = NLA_STRING,
                          req_option_data = DataString str\<rparr>]\<rparr> None"
    by (simp add: team_set_option_value_by_name_u32_def team_set_option_value_by_name_string_def
          set_option_value_def)
  from 1 2 3 4 5 show ?thesis by simp
qed

theorem setters_leave_the_cache_alone_witness:
  "replies_without_data (xchg_of [[Ack]]) \<and>
   team_set_option_value_by_name_u32 th_S1 (xchg_of [[Ack]]) ''activeport'' 42 = Inr (0, th_S1) \<and>
   team_get_option_by_name th_S1 ''activeport'' =
     Some \<lparr>opt_type = TEAM_OPTION_TYPE_U32, opt_changed = False, name = ''activeport'',
           data = DataU32 11\<rparr> \<and>
   team_set_option_value_by_name_string th_S1 (xchg_of [[Error (- 22)]]) ''mode'' ''loadbalance'' =
     Inr (- 22, th_S1\<lparr>nl_sock_err := - 22\<rparr>) \<and>
   option_list (th_S1\<lparr>nl_sock_err := - 22\<rparr>) = option_list th_S1"
proof -
  have a: "replies_without_data (xchg_of [[Ack]])"
    by (simp add: replies_without_data_def xchg_of_def carries_data_def)
  have a': "replies_without_data (xchg_of [[Error (- 22)]])"
    by (simp add: replies_without_data_def xchg_of_def carries_data_def)
  have b: "team_set_option_value_by_name_u32 th_S1 (xchg_of [[Ack]]) ''activeport'' 42 =
           Inr (0, th_S1)"
    by (simp add: team_set_option_value_by_name_u32_def run_defs xchg_of_def th_S1_def)
  have c: "team_set_option_value_by_name_string th_S1 (xchg_of [[Error (- 22)]]) ''mode''
             ''loadbalance'' = Inr (- 22, th_S1\<lparr>nl_sock_err := - 22\<rparr>)"
    by (simp add: team_set_option_value_by_name_string_def run_defs xchg_of_def th_S1_def)
  have d: "team_get_option_by_name th_S1 ''activeport'' =
     Some \<lparr>opt_type = TEAM_OPTION_TYPE_U32, opt_changed = False, name = ''activeport'',
           data = DataU32 11\<rparr>"
    by (simp add: team_get_option_by_name_def find_option_def th_S1_def)
  from setters_leave_the_cache_alone[OF a', of th_S1 "''mode''" undefined "- 22"
         "th_S1\<lparr>nl_sock_err := - 22\<rparr>" "''loadbalance''"] c
  have e: "option_list (th_S1\<lparr>nl_sock_err := - 22\<rparr>) = option_list th_S1" by simp
  from a b c d e show ?thesis by simp
qed

end
